theory Spec2Isabelle
  imports Main "HOL-Library.Word"
begin

unbundle bit_operations_syntax

section \<open>Values of the run-time: bytes and strings\<close>

text \<open>
  A Node \<open>Buffer\<close> is a list of bytes. A JavaScript string is a list of 16-bit code units;
  \<open>js\<close> writes a string literal of the source (ASCII) as such a list.
\<close>

type_synonym byte = "8 word"
type_synonym bytes = "byte list"
type_synonym jschar = "16 word"
type_synonym jsstring = "jschar list"

definition js :: "string \<Rightarrow> jsstring" where
  "js s = map (\<lambda>c. of_nat (of_char c)) s"

text \<open>
  Exceptions are values. The model keeps the class of a thrown error; the text of its
  \<open>message\<close> is chosen by the engine and is not modelled.
\<close>

datatype js_error = TypeError | SyntaxError | RangeError | CryptoError | Error jsstring

subsection \<open>\<open>String.prototype.includes\<close>\<close>

fun starts_with :: "jsstring \<Rightarrow> jsstring \<Rightarrow> bool" where
  "starts_with s [] = True"
| "starts_with [] (n # ns) = False"
| "starts_with (c # cs) (n # ns) = (c = n \<and> starts_with cs ns)"

fun str_includes :: "jsstring \<Rightarrow> jsstring \<Rightarrow> bool" where
  "str_includes [] n = (n = [])"
| "str_includes (c # cs) n = (starts_with (c # cs) n \<or> str_includes cs n)"

section \<open>Buffer encodings\<close>

subsection \<open>\<open>hex\<close>\<close>

text \<open>
  \<open>buf.toString('hex')\<close> writes two lower-case digits per byte. \<open>Buffer.from(s, 'hex')\<close>
  reads pairs of hex digits (either case) and stops at the first pair that is not one.
\<close>

definition hexdigit :: "nat \<Rightarrow> jschar" where
  "hexdigit n = (if n < 10 then of_nat (48 + n) else of_nat (87 + n))"

definition toHex :: "bytes \<Rightarrow> jsstring" where
  "toHex bs = concat (map (\<lambda>b. [hexdigit (unat b div 16), hexdigit (unat b mod 16)]) bs)"

definition hexval :: "jschar \<Rightarrow> nat option" where
  "hexval c =
     (let n = unat c in
      if 48 \<le> n \<and> n \<le> 57 then Some (n - 48)
      else if 97 \<le> n \<and> n \<le> 102 then Some (n - 87)
      else if 65 \<le> n \<and> n \<le> 70 then Some (n - 55)
      else None)"

fun fromHex :: "jsstring \<Rightarrow> bytes" where
  "fromHex (a # b # r) =
     (case hexval a of
        None \<Rightarrow> []
      | Some h \<Rightarrow> (case hexval b of
                     None \<Rightarrow> []
                   | Some l \<Rightarrow> of_nat (h * 16 + l) # fromHex r))"
| "fromHex _ = []"

subsection \<open>\<open>base64\<close> and \<open>base64url\<close>\<close>

text \<open>
  The encoder takes three bytes to four characters. \<open>base64\<close> uses \<open>+\<close> and \<open>/\<close> and
  pads with \<open>=\<close>; \<open>base64url\<close> uses \<open>-\<close> and \<open>_\<close> and does not pad.
\<close>

definition b64char :: "bool \<Rightarrow> nat \<Rightarrow> jschar" where
  "b64char url n =
     (if n < 26 then of_nat (65 + n)
      else if n < 52 then of_nat (71 + n)
      else if n < 62 then of_nat (n - 4)
      else if n = 62 then (if url then 45 else 43)
      else (if url then 95 else 47))"

fun b64_encode :: "bool \<Rightarrow> bytes \<Rightarrow> jsstring" where
  "b64_encode url (a # b # c # r) =
     [b64char url (unat a div 4),
      b64char url ((unat a mod 4) * 16 + unat b div 16),
      b64char url ((unat b mod 16) * 4 + unat c div 64),
      b64char url (unat c mod 64)] @ b64_encode url r"
| "b64_encode url [a, b] =
     [b64char url (unat a div 4),
      b64char url ((unat a mod 4) * 16 + unat b div 16),
      b64char url ((unat b mod 16) * 4)] @ (if url then [] else [61])"
| "b64_encode url [a] =
     [b64char url (unat a div 4),
      b64char url ((unat a mod 4) * 16)] @ (if url then [] else [61, 61])"
| "b64_encode url [] = []"

definition toBase64 :: "bytes \<Rightarrow> jsstring" where
  "toBase64 = b64_encode False"

definition toBase64url :: "bytes \<Rightarrow> jsstring" where
  "toBase64url = b64_encode True"

text \<open>
  The decoder of \<open>Buffer.from(s, 'base64')\<close> and of \<open>Buffer.from(s, 'base64url')\<close> is the
  same: it accepts both alphabets, passes over any other character, stops at the first
  \<open>=\<close>, and never throws. Every further character completes one more byte, except the
  first of each group of four.
\<close>

definition unbase64 :: "jschar \<Rightarrow> nat option" where
  "unbase64 c =
     (let n = unat c in
      if 65 \<le> n \<and> n \<le> 90 then Some (n - 65)
      else if 97 \<le> n \<and> n \<le> 122 then Some (n - 71)
      else if 48 \<le> n \<and> n \<le> 57 then Some (n + 4)
      else if n = 43 \<or> n = 45 then Some 62
      else if n = 47 \<or> n = 95 then Some 63
      else None)"

fun b64_sextets :: "jsstring \<Rightarrow> nat list" where
  "b64_sextets [] = []"
| "b64_sextets (c # cs) =
     (case unbase64 c of
        Some v \<Rightarrow> v # b64_sextets cs
      | None \<Rightarrow> if c = 61 then [] else b64_sextets cs)"

fun b64_bytes :: "nat list \<Rightarrow> bytes" where
  "b64_bytes (a # b # c # d # r) =
     of_nat (a * 4 + b div 16) # of_nat ((b mod 16) * 16 + c div 4) #
     of_nat ((c mod 4) * 64 + d) # b64_bytes r"
| "b64_bytes [a, b, c] = [of_nat (a * 4 + b div 16), of_nat ((b mod 16) * 16 + c div 4)]"
| "b64_bytes [a, b] = [of_nat (a * 4 + b div 16)]"
| "b64_bytes _ = []"

definition fromBase64 :: "jsstring \<Rightarrow> bytes" where
  "fromBase64 s = b64_bytes (b64_sextets s)"

subsection \<open>\<open>utf8\<close>\<close>

text \<open>
  \<open>Buffer.from(s, 'utf8')\<close>: a surrogate pair is one code point of four bytes, a surrogate
  that stands alone is written as U+FFFD (\<open>EF BF BD\<close>).
\<close>

definition is_high :: "jschar \<Rightarrow> bool" where
  "is_high u = (55296 \<le> unat u \<and> unat u < 56320)"

definition is_low :: "jschar \<Rightarrow> bool" where
  "is_low u = (56320 \<le> unat u \<and> unat u < 57344)"

definition utf8_1 :: "nat \<Rightarrow> bytes" where
  "utf8_1 n = [of_nat n]"

definition utf8_2 :: "nat \<Rightarrow> bytes" where
  "utf8_2 n = [of_nat (192 + n div 64), of_nat (128 + n mod 64)]"

definition utf8_3 :: "nat \<Rightarrow> bytes" where
  "utf8_3 n = [of_nat (224 + n div 4096), of_nat (128 + n div 64 mod 64), of_nat (128 + n mod 64)]"

definition utf8_4 :: "nat \<Rightarrow> bytes" where
  "utf8_4 n = [of_nat (240 + n div 262144), of_nat (128 + n div 4096 mod 64),
               of_nat (128 + n div 64 mod 64), of_nat (128 + n mod 64)]"

definition pair_code_point :: "jschar \<Rightarrow> jschar \<Rightarrow> nat" where
  "pair_code_point h l = 65536 + (unat h - 55296) * 1024 + (unat l - 56320)"

fun utf8_encode :: "jsstring \<Rightarrow> bytes" where
  "utf8_encode [] = []"
| "utf8_encode [u] =
     (if unat u < 128 then utf8_1 (unat u)
      else if unat u < 2048 then utf8_2 (unat u)
      else if is_high u \<or> is_low u then utf8_3 65533
      else utf8_3 (unat u))"
| "utf8_encode (u # l # r) =
     (if unat u < 128 then utf8_1 (unat u) @ utf8_encode (l # r)
      else if unat u < 2048 then utf8_2 (unat u) @ utf8_encode (l # r)
      else if is_high u \<and> is_low l then utf8_4 (pair_code_point u l) @ utf8_encode r
      else if is_high u \<or> is_low u then utf8_3 65533 @ utf8_encode (l # r)
      else utf8_3 (unat u) @ utf8_encode (l # r))"

text \<open>
  \<open>buf.toString('utf8')\<close> never throws: a byte sequence that is not well-formed UTF-8
  yields U+FFFD for each maximal ill-formed part, and a code point above U+FFFF
  yields its surrogate pair.
\<close>

definition is_cont :: "byte \<Rightarrow> bool" where
  "is_cont b = (128 \<le> unat b \<and> unat b \<le> 191)"

definition second_ok :: "nat \<Rightarrow> byte \<Rightarrow> bool" where
  "second_ok lead b =
     ((if lead = 224 then 160 else if lead = 240 then 144 else 128) \<le> unat b \<and>
      unat b \<le> (if lead = 237 then 159 else if lead = 244 then 143 else 191))"

definition code_units :: "nat \<Rightarrow> jsstring" where
  "code_units cp =
     (if cp < 65536 then [of_nat cp]
      else [of_nat (55296 + (cp - 65536) div 1024), of_nat (56320 + (cp - 65536) mod 1024)])"

fun utf8_decode :: "bytes \<Rightarrow> jsstring" where
  "utf8_decode [] = []"
| "utf8_decode (b # bs) =
     (if unat b < 128 then of_nat (unat b) # utf8_decode bs
      else if 194 \<le> unat b \<and> unat b \<le> 223 then
        (case bs of
           [] \<Rightarrow> [65533]
         | c # cs \<Rightarrow>
             if is_cont c
             then code_units ((unat b - 192) * 64 + (unat c - 128)) @ utf8_decode cs
             else 65533 # utf8_decode (c # cs))
      else if 224 \<le> unat b \<and> unat b \<le> 239 then
        (case bs of
           [] \<Rightarrow> [65533]
         | c # cs \<Rightarrow>
             if second_ok (unat b) c then
               (case cs of
                  [] \<Rightarrow> [65533]
                | d # ds \<Rightarrow>
                    if is_cont d
                    then code_units (((unat b - 224) * 64 + (unat c - 128)) * 64 + (unat d - 128))
                         @ utf8_decode ds
                    else 65533 # utf8_decode (d # ds))
             else 65533 # utf8_decode (c # cs))
      else if 240 \<le> unat b \<and> unat b \<le> 244 then
        (case bs of
           [] \<Rightarrow> [65533]
         | c # cs \<Rightarrow>
             if second_ok (unat b) c then
               (case cs of
                  [] \<Rightarrow> [65533]
                | d # ds \<Rightarrow>
                    if is_cont d then
                      (case ds of
                         [] \<Rightarrow> [65533]
                       | e # es \<Rightarrow>
                           if is_cont e
                           then code_units
                                  ((((unat b - 240) * 64 + (unat c - 128)) * 64 + (unat d - 128)) * 64
                                   + (unat e - 128))
                                @ utf8_decode es
                           else 65533 # utf8_decode (e # es))
                    else 65533 # utf8_decode (d # ds))
             else 65533 # utf8_decode (c # cs))
      else 65533 # utf8_decode bs)"

text \<open>
  A string is well-formed when each surrogate is part of a pair. These are the strings that
  \<open>utf8\<close> encoding and decoding give back unchanged.
\<close>

fun well_formed :: "jsstring \<Rightarrow> bool" where
  "well_formed [] = True"
| "well_formed [u] = (\<not> is_high u \<and> \<not> is_low u)"
| "well_formed (u # l # r) =
     (if is_high u then is_low l \<and> well_formed r
      else \<not> is_low u \<and> well_formed (l # r))"

text \<open>A code unit that is not a surrogate.\<close>

definition no_surrogate :: "jschar \<Rightarrow> bool" where
  "no_surrogate u = (\<not> is_high u \<and> \<not> is_low u)"

section \<open>JSON\<close>

text \<open>
  The values that \<open>JSON.parse\<close> returns and \<open>JSON.stringify\<close> prints. The members of an
  object are kept in the order of its own properties. A number is an integer (every number
  that this program writes is a reading of the clock); a number literal with a fraction
  or an exponent is carried as its text, since floating point is outside the model.
\<close>

datatype json =
    JNull
  | JBool bool
  | JNum int
  | JReal jsstring
  | JString jsstring
  | JArray "json list"
  | JObject "(jsstring \<times> json) list"

subsection \<open>\<open>JSON.stringify\<close>\<close>

definition hex4 :: "nat \<Rightarrow> jsstring" where
  "hex4 n = [hexdigit (n div 4096), hexdigit (n div 256 mod 16),
             hexdigit (n div 16 mod 16), hexdigit (n mod 16)]"

text \<open>
  One code unit inside a string literal: the quote (34) and the backslash (92) are
  escaped, the control characters have two-character escapes or \<open>\u00xx\<close>, and a
  surrogate that is not part of a pair is written as \<open>\udxxx\<close>.
\<close>

definition escape_unit :: "jschar \<Rightarrow> jsstring" where
  "escape_unit u =
     (if u = 34 then [92, 34]
      else if u = 92 then [92, 92]
      else if u = 8 then [92, 98]
      else if u = 12 then [92, 102]
      else if u = 10 then [92, 110]
      else if u = 13 then [92, 114]
      else if u = 9 then [92, 116]
      else if unat u < 32 \<or> is_high u \<or> is_low u then [92, 117] @ hex4 (unat u)
      else [u])"

fun json_escape :: "jsstring \<Rightarrow> jsstring" where
  "json_escape [] = []"
| "json_escape [u] = escape_unit u"
| "json_escape (u # l # r) =
     (if is_high u \<and> is_low l then u # l # json_escape r
      else escape_unit u @ json_escape (l # r))"

definition json_quote :: "jsstring \<Rightarrow> jsstring" where
  "json_quote s = [34] @ json_escape s @ [34]"

fun dec :: "nat \<Rightarrow> jsstring" where
  "dec n = (if n < 10 then [of_nat (48 + n)] else dec (n div 10) @ [of_nat (48 + n mod 10)])"

declare dec.simps [simp del]

definition number_text :: "int \<Rightarrow> jsstring" where
  "number_text i = (if i < 0 then [45] @ dec (nat (- i)) else dec (nat i))"

fun JSON_stringify :: "json \<Rightarrow> jsstring"
  and stringify_elements :: "json list \<Rightarrow> jsstring"
  and stringify_members :: "(jsstring \<times> json) list \<Rightarrow> jsstring"
where
  "JSON_stringify JNull = js ''null''"
| "JSON_stringify (JBool b) = (if b then js ''true'' else js ''false'')"
| "JSON_stringify (JNum i) = number_text i"
| "JSON_stringify (JReal t) = t"
| "JSON_stringify (JString s) = json_quote s"
| "JSON_stringify (JArray xs) = [91] @ stringify_elements xs @ [93]"
| "JSON_stringify (JObject ms) = [123] @ stringify_members ms @ [125]"
| "stringify_elements [] = []"
| "stringify_elements [x] = JSON_stringify x"
| "stringify_elements (x # y # r) = JSON_stringify x @ [44] @ stringify_elements (y # r)"
| "stringify_members [] = []"
| "stringify_members [(k, v)] = json_quote k @ [58] @ JSON_stringify v"
| "stringify_members ((k, v) # m # r) =
     json_quote k @ [58] @ JSON_stringify v @ [44] @ stringify_members (m # r)"

text \<open>
  An object literal of the source: a property whose value is \<open>undefined\<close> (here \<open>None\<close>)
  is left out by \<open>JSON.stringify\<close>.
\<close>

definition object_of :: "(jsstring \<times> json option) list \<Rightarrow> json" where
  "object_of ps = JObject (List.map_filter (\<lambda>(k, v). map_option (Pair k) v) ps)"

subsection \<open>\<open>JSON.parse\<close>\<close>

fun skip_ws :: "jsstring \<Rightarrow> jsstring" where
  "skip_ws [] = []"
| "skip_ws (c # cs) = (if c = 32 \<or> c = 9 \<or> c = 10 \<or> c = 13 then skip_ws cs else c # cs)"

definition unescape :: "jschar \<Rightarrow> jschar option" where
  "unescape e =
     (if e = 34 then Some 34
      else if e = 92 then Some 92
      else if e = 47 then Some 47
      else if e = 98 then Some 8
      else if e = 102 then Some 12
      else if e = 110 then Some 10
      else if e = 114 then Some 13
      else if e = 116 then Some 9
      else None)"

definition cons_result :: "'a \<Rightarrow> ('a list \<times> 'b) option \<Rightarrow> ('a list \<times> 'b) option" where
  "cons_result x res = map_option (\<lambda>(xs, r). (x # xs, r)) res"

definition hex4_value :: "jschar \<Rightarrow> jschar \<Rightarrow> jschar \<Rightarrow> jschar \<Rightarrow> jschar option" where
  "hex4_value a b c d =
     (case hexval a of None \<Rightarrow> None | Some x \<Rightarrow>
      (case hexval b of None \<Rightarrow> None | Some y \<Rightarrow>
       (case hexval c of None \<Rightarrow> None | Some z \<Rightarrow>
        (case hexval d of None \<Rightarrow> None | Some w \<Rightarrow>
           Some (of_nat (((x * 16 + y) * 16 + z) * 16 + w))))))"

text \<open>The characters of a string literal after its opening quote, up to the closing one.\<close>

fun parse_chars :: "jsstring \<Rightarrow> (jsstring \<times> jsstring) option" where
  "parse_chars [] = None"
| "parse_chars (c # cs) =
     (if c = 34 then Some ([], cs)
      else if c = 92 then
        (case cs of
           [] \<Rightarrow> None
         | e # r \<Rightarrow>
             if e = 117 then
               (case r of
                  h1 # h2 # h3 # h4 # r' \<Rightarrow>
                    (case hex4_value h1 h2 h3 h4 of
                       None \<Rightarrow> None
                     | Some u \<Rightarrow> cons_result u (parse_chars r'))
                | _ \<Rightarrow> None)
             else
               (case unescape e of
                  None \<Rightarrow> None
                | Some u \<Rightarrow> cons_result u (parse_chars r)))
      else if unat c < 32 then None
      else cons_result c (parse_chars cs))"

definition is_digit :: "jschar \<Rightarrow> bool" where
  "is_digit c = (48 \<le> unat c \<and> unat c \<le> 57)"

fun take_digits :: "jsstring \<Rightarrow> jsstring \<times> jsstring" where
  "take_digits [] = ([], [])"
| "take_digits (c # cs) =
     (if is_digit c then (case take_digits cs of (ds, r) \<Rightarrow> (c # ds, r)) else ([], c # cs))"

definition digits_value :: "jsstring \<Rightarrow> nat" where
  "digits_value ds = foldl (\<lambda>a c. a * 10 + (unat c - 48)) 0 ds"

definition parse_fraction :: "jsstring \<Rightarrow> (jsstring \<times> jsstring) option" where
  "parse_fraction s =
     (case s of
        [] \<Rightarrow> Some ([], s)
      | c # r \<Rightarrow>
          if c = 46 then
            (case take_digits r of (ds, r') \<Rightarrow> if ds = [] then None else Some (c # ds, r'))
          else Some ([], s))"

definition parse_exponent :: "jsstring \<Rightarrow> (jsstring \<times> jsstring) option" where
  "parse_exponent s =
     (case s of
        [] \<Rightarrow> Some ([], s)
      | c # r \<Rightarrow>
          if c = 101 \<or> c = 69 then
            (case r of
               [] \<Rightarrow> None
             | g # r1 \<Rightarrow>
                 if g = 43 \<or> g = 45 then
                   (case take_digits r1 of (ds, r') \<Rightarrow>
                      if ds = [] then None else Some (c # g # ds, r'))
                 else
                   (case take_digits r of (ds, r') \<Rightarrow>
                      if ds = [] then None else Some (c # ds, r')))
          else Some ([], s))"

definition parse_number :: "jsstring \<Rightarrow> (json \<times> jsstring) option" where
  "parse_number s =
     (let neg = (case s of [] \<Rightarrow> False | c # r \<Rightarrow> c = 45);
          s1 = (if neg then tl s else s)
      in case take_digits s1 of (ds, s2) \<Rightarrow>
           if ds = [] \<or> (1 < length ds \<and> hd ds = 48) then None
           else
             (case parse_fraction s2 of
                None \<Rightarrow> None
              | Some (fr, s3) \<Rightarrow>
                  (case parse_exponent s3 of
                     None \<Rightarrow> None
                   | Some (ex, s4) \<Rightarrow>
                       if fr = [] \<and> ex = []
                       then Some (JNum (if neg then - int (digits_value ds)
                                        else int (digits_value ds)), s4)
                       else Some (JReal ((if neg then [45] else []) @ ds @ fr @ ex), s4))))"

text \<open>
  The own properties of the object that \<open>JSON.parse\<close> builds from the members it reads:
  a repeated name keeps its first place and its last value, and the names that are array
  indices come first, in ascending order.
\<close>

fun obj_put :: "(jsstring \<times> json) list \<Rightarrow> jsstring \<Rightarrow> json \<Rightarrow> (jsstring \<times> json) list" where
  "obj_put [] k v = [(k, v)]"
| "obj_put ((k', v') # ms) k v =
     (if k' = k then (k', v) # ms else (k', v') # obj_put ms k v)"

definition is_index :: "jsstring \<Rightarrow> bool" where
  "is_index k =
     (k \<noteq> [] \<and> list_all is_digit k \<and> (length k = 1 \<or> hd k \<noteq> 48) \<and>
      digits_value k < 4294967295)"

definition mk_object :: "(jsstring \<times> json) list \<Rightarrow> (jsstring \<times> json) list" where
  "mk_object ms =
     (let ps = foldl (\<lambda>acc (k, v). obj_put acc k v) [] ms
      in sort_key (\<lambda>(k, v). digits_value k) (filter (\<lambda>(k, v). is_index k) ps)
         @ filter (\<lambda>(k, v). \<not> is_index k) ps)"

text \<open>
  The parser descends with a bound on the number of nested calls; \<open>JSON_parse\<close> gives it
  more than any text can use. \<open>None\<close> is the \<open>SyntaxError\<close> of \<open>JSON.parse\<close>.
\<close>

fun parse_value :: "nat \<Rightarrow> jsstring \<Rightarrow> (json \<times> jsstring) option"
  and parse_elements :: "nat \<Rightarrow> jsstring \<Rightarrow> (json list \<times> jsstring) option"
  and parse_members :: "nat \<Rightarrow> jsstring \<Rightarrow> ((jsstring \<times> json) list \<times> jsstring) option"
where
  "parse_value 0 s = None"
| "parse_value (Suc n) s =
     (case skip_ws s of
        [] \<Rightarrow> None
      | c # r \<Rightarrow>
          if c = 123 then
            (case skip_ws r of
               [] \<Rightarrow> None
             | c' # r' \<Rightarrow>
                 if c' = 125 then Some (JObject [], r')
                 else map_option (\<lambda>(ms, r''). (JObject (mk_object ms), r''))
                        (parse_members n (c' # r')))
          else if c = 91 then
            (case skip_ws r of
               [] \<Rightarrow> None
             | c' # r' \<Rightarrow>
                 if c' = 93 then Some (JArray [], r')
                 else map_option (\<lambda>(vs, r''). (JArray vs, r'')) (parse_elements n (c' # r')))
          else if c = 34 then map_option (\<lambda>(t, r'). (JString t, r')) (parse_chars r)
          else if starts_with (c # r) (js ''null'') then Some (JNull, drop 4 (c # r))
          else if starts_with (c # r) (js ''true'') then Some (JBool True, drop 4 (c # r))
          else if starts_with (c # r) (js ''false'') then Some (JBool False, drop 5 (c # r))
          else parse_number (c # r))"
| "parse_elements 0 s = None"
| "parse_elements (Suc n) s =
     (case parse_value n s of
        None \<Rightarrow> None
      | Some (v, r) \<Rightarrow>
          (case skip_ws r of
             [] \<Rightarrow> None
           | c # r' \<Rightarrow>
               if c = 44 then cons_result v (parse_elements n r')
               else if c = 93 then Some ([v], r')
               else None))"
| "parse_members 0 s = None"
| "parse_members (Suc n) s =
     (case skip_ws s of
        [] \<Rightarrow> None
      | c # r \<Rightarrow>
          if c \<noteq> 34 then None
          else
            (case parse_chars r of
               None \<Rightarrow> None
             | Some (k, r1) \<Rightarrow>
                 (case skip_ws r1 of
                    [] \<Rightarrow> None
                  | c1 # r2 \<Rightarrow>
                      if c1 \<noteq> 58 then None
                      else
                        (case parse_value n r2 of
                           None \<Rightarrow> None
                         | Some (v, r3) \<Rightarrow>
                             (case skip_ws r3 of
                                [] \<Rightarrow> None
                              | c3 # r4 \<Rightarrow>
                                  if c3 = 44 then cons_result (k, v) (parse_members n r4)
                                  else if c3 = 125 then Some ([(k, v)], r4)
                                  else None)))))"

definition JSON_parse :: "jsstring \<Rightarrow> json option" where
  "JSON_parse s =
     (case parse_value (2 * length s + 2) s of
        None \<Rightarrow> None
      | Some (v, r) \<Rightarrow> if skip_ws r = [] then Some v else None)"

subsection \<open>Reading a property\<close>

text \<open>
  \<open>v.name\<close> for a value that came out of \<open>JSON.parse\<close> and a name that no prototype
  defines (every name this program reads: \<open>data\<close>, \<open>signature\<close>, \<open>key\<close>, \<open>iv\<close>,
  \<open>authTag\<close>, \<open>encrypted\<close>, \<open>type\<close>, \<open>challenge\<close>, \<open>origin\<close>, \<open>content\<close>): reading
  from \<open>null\<close> throws, a missing property is \<open>undefined\<close> (here \<open>None\<close>).
\<close>

fun get_prop :: "json \<Rightarrow> jsstring \<Rightarrow> js_error + json option" where
  "get_prop JNull k = Inl TypeError"
| "get_prop (JObject ms) k = Inr (map_of ms k)"
| "get_prop v k = Inr None"

section \<open>Primitives of the \<open>crypto\<close> module\<close>

subsection \<open>SHA-256 (FIPS 180-4)\<close>

text \<open>A 32-bit word is a natural number below \<open>2 ^ 32\<close>; addition wraps around.\<close>

definition add32 :: "nat \<Rightarrow> nat \<Rightarrow> nat" where
  "add32 x y = (x + y) mod 4294967296"

definition rotr :: "nat \<Rightarrow> nat \<Rightarrow> nat" where
  "rotr n x = x div 2 ^ n + (x mod 2 ^ n) * 2 ^ (32 - n)"

definition shr :: "nat \<Rightarrow> nat \<Rightarrow> nat" where
  "shr n x = x div 2 ^ n"

definition Ch :: "nat \<Rightarrow> nat \<Rightarrow> nat \<Rightarrow> nat" where
  "Ch x y z = (x AND y) XOR ((4294967295 - x) AND z)"

definition Maj :: "nat \<Rightarrow> nat \<Rightarrow> nat \<Rightarrow> nat" where
  "Maj x y z = (x AND y) XOR (x AND z) XOR (y AND z)"

definition Sigma0 :: "nat \<Rightarrow> nat" where
  "Sigma0 x = rotr 2 x XOR rotr 13 x XOR rotr 22 x"

definition Sigma1 :: "nat \<Rightarrow> nat" where
  "Sigma1 x = rotr 6 x XOR rotr 11 x XOR rotr 25 x"

definition sigma0 :: "nat \<Rightarrow> nat" where
  "sigma0 x = rotr 7 x XOR rotr 18 x XOR shr 3 x"

definition sigma1 :: "nat \<Rightarrow> nat" where
  "sigma1 x = rotr 17 x XOR rotr 19 x XOR shr 10 x"

definition K256 :: "nat list" where
  "K256 =
     [1116352408, 1899447441, 3049323471, 3921009573, 961987163, 1508970993,
      2453635748, 2870763221, 3624381080, 310598401, 607225278, 1426881987,
      1925078388, 2162078206, 2614888103, 3248222580, 3835390401, 4022224774,
      264347078, 604807628, 770255983, 1249150122, 1555081692, 1996064986,
      2554220882, 2821834349, 2952996808, 3210313671, 3336571891, 3584528711,
      113926993, 338241895, 666307205, 773529912, 1294757372, 1396182291,
      1695183700, 1986661051, 2177026350, 2456956037, 2730485921, 2820302411,
      3259730800, 3345764771, 3516065817, 3600352804, 4094571909, 275423344,
      430227734, 506948616, 659060556, 883997877, 958139571, 1322822218,
      1537002063, 1747873779, 1955562222, 2024104815, 2227730452, 2361852424,
      2428436474, 2756734187, 3204031479, 3329325298]"

definition H0 :: "nat list" where
  "H0 = [1779033703, 3144134277, 1013904242, 2773480762,
         1359893119, 2600822924, 528734635, 1541459225]"

fun be32 :: "bytes \<Rightarrow> nat list" where
  "be32 (a # b # c # d # r) =
     (unat a * 16777216 + unat b * 65536 + unat c * 256 + unat d) # be32 r"
| "be32 _ = []"

definition bytes32 :: "nat \<Rightarrow> bytes" where
  "bytes32 w = [of_nat (w div 16777216 mod 256), of_nat (w div 65536 mod 256),
                of_nat (w div 256 mod 256), of_nat (w mod 256)]"

definition bytes64 :: "nat \<Rightarrow> bytes" where
  "bytes64 n = bytes32 (n div 4294967296 mod 4294967296) @ bytes32 (n mod 4294967296)"

text \<open>Padding: the bit 1, zeros up to 56 modulo 64 bytes, the length in bits.\<close>

definition pad :: "bytes \<Rightarrow> bytes" where
  "pad m = m @ [128] @ replicate ((119 - length m mod 64) mod 64) 0 @ bytes64 (8 * length m)"

text \<open>
  The 64 rounds of the compression function. The third argument is the window of the
  sixteen latest words of the message schedule; each round uses the oldest and appends
  the next one.
\<close>

definition T1 :: "nat \<Rightarrow> nat \<Rightarrow> nat \<Rightarrow> nat \<Rightarrow> nat \<Rightarrow> nat \<Rightarrow> nat" where
  "T1 e f g h k w = add32 (add32 (add32 (add32 h (Sigma1 e)) (Ch e f g)) k) w"

definition T2 :: "nat \<Rightarrow> nat \<Rightarrow> nat \<Rightarrow> nat" where
  "T2 a b c = add32 (Sigma0 a) (Maj a b c)"

definition next_state :: "nat list \<Rightarrow> nat \<Rightarrow> nat \<Rightarrow> nat list" where
  "next_state s t1 t2 =
     (case s of
        [a, b, c, d, e, f, g, h] \<Rightarrow> [add32 t1 t2, a, b, c, add32 d t1, e, f, g]
      | _ \<Rightarrow> s)"

definition next_word :: "nat \<Rightarrow> nat \<Rightarrow> nat \<Rightarrow> nat \<Rightarrow> nat" where
  "next_word w14 w9 w1 w0 = add32 (add32 (add32 (sigma1 w14) w9) (sigma0 w1)) w0"

fun rounds :: "nat list \<Rightarrow> nat list \<Rightarrow> nat list \<Rightarrow> nat list" where
  "rounds [a, b, c, d, e, f, g, h] (k # ks)
      [w0, w1, w2, w3, w4, w5, w6, w7, w8, w9, w10, w11, w12, w13, w14, w15] =
     rounds (next_state [a, b, c, d, e, f, g, h] (T1 e f g h k w0) (T2 a b c)) ks
       [w1, w2, w3, w4, w5, w6, w7, w8, w9, w10, w11, w12, w13, w14, w15,
        next_word w14 w9 w1 w0]"
| "rounds s _ _ = s"

definition compress :: "nat list \<Rightarrow> bytes \<Rightarrow> nat list" where
  "compress h blk = map2 add32 h (rounds h K256 (be32 blk))"

fun blocks :: "nat list \<Rightarrow> bytes \<Rightarrow> nat list" where
  "blocks h [] = h"
| "blocks h (b # m) = blocks (compress h (take 64 (b # m))) (drop 64 (b # m))"

definition sha256 :: "bytes \<Rightarrow> bytes" where
  "sha256 m = concat (map bytes32 (blocks H0 (pad m)))"

subsection \<open>HMAC-SHA256 (RFC 2104)\<close>

definition hmac_sha256 :: "bytes \<Rightarrow> bytes \<Rightarrow> bytes" where
  "hmac_sha256 key msg =
     (let k0 = (if 64 < length key then sha256 key else key);
          k = k0 @ replicate (64 - length k0) 0
      in sha256 (map (\<lambda>b. b XOR 92) k @ sha256 (map (\<lambda>b. b XOR 54) k @ msg)))"

subsection \<open>AES-256-GCM\<close>

text \<open>
  The block cipher is not spelled out. Galois/Counter Mode (NIST SP 800-38D) is a stream
  cipher with a tag: byte \<open>i\<close> of the ciphertext is byte \<open>i\<close> of the plaintext XOR byte
  \<open>i\<close> of a key stream that depends on key and IV, and the 16-byte tag depends on key,
  IV, associated data and ciphertext. The key stream and the tag function are parameters.
  Creating the cipher throws unless the key has 32 bytes and the IV is not empty;
  \<open>setAuthTag\<close> throws unless the tag has one of the lengths GCM allows, and \<open>final\<close>
  throws unless the tag agrees with the computed one.
\<close>

record gcm_mode =
  keystream :: "bytes \<Rightarrow> bytes \<Rightarrow> nat \<Rightarrow> byte"
  auth_tag :: "bytes \<Rightarrow> bytes \<Rightarrow> bytes \<Rightarrow> bytes \<Rightarrow> nat \<Rightarrow> byte"

definition ctr_xor :: "(nat \<Rightarrow> byte) \<Rightarrow> bytes \<Rightarrow> bytes" where
  "ctr_xor ks m = map (\<lambda>i. (m ! i) XOR ks i) [0..<length m]"

definition gcm_tag :: "gcm_mode \<Rightarrow> bytes \<Rightarrow> bytes \<Rightarrow> bytes \<Rightarrow> bytes \<Rightarrow> bytes" where
  "gcm_tag G key iv aad ct = map (auth_tag G key iv aad ct) [0..<16]"

definition gcm_encrypt ::
  "gcm_mode \<Rightarrow> bytes \<Rightarrow> bytes \<Rightarrow> bytes \<Rightarrow> bytes \<Rightarrow> js_error + (bytes \<times> bytes)" where
  "gcm_encrypt G key iv aad pt =
     (if length key \<noteq> 32 then Inl RangeError
      else if iv = [] then Inl TypeError
      else (let ct = ctr_xor (keystream G key iv) pt in Inr (ct, gcm_tag G key iv aad ct)))"

definition gcm_decrypt ::
  "gcm_mode \<Rightarrow> bytes \<Rightarrow> bytes \<Rightarrow> bytes \<Rightarrow> bytes \<Rightarrow> bytes \<Rightarrow> js_error + bytes" where
  "gcm_decrypt G key iv aad tag ct =
     (if length key \<noteq> 32 then Inl RangeError
      else if iv = [] then Inl TypeError
      else if length tag \<notin> {4, 8, 12, 13, 14, 15, 16} then Inl TypeError
      else if tag \<noteq> take (length tag) (gcm_tag G key iv aad ct) then Inl CryptoError
      else Inr (ctr_xor (keystream G key iv) ct))"

subsection \<open>Public keys and signatures\<close>

text \<open>
  \<open>crypto.createPublicKey\<close> reads a PEM text (it throws when it cannot) and
  \<open>crypto.verify('sha256', data, key, signature)\<close> checks a signature with the algorithm
  of the key. Both are parameters, over any type \<open>'k\<close> of key objects.
\<close>

record 'k pkcrypto =
  createPublicKey :: "jsstring \<Rightarrow> js_error + 'k"
  crypto_verify :: "bytes \<Rightarrow> 'k \<Rightarrow> bytes \<Rightarrow> js_error + bool"

subsection \<open>The clock and the random generator\<close>

text \<open>
  \<open>Date.now()\<close> is a number of milliseconds, an argument \<open>now\<close> of the functions that read
  the clock. The random generator is the stream of the bytes it will deliver;
  \<open>randomBytes n\<close> takes the next \<open>n\<close> of them.
\<close>

type_synonym rng = "nat \<Rightarrow> byte"

definition randomBytes :: "nat \<Rightarrow> rng \<Rightarrow> bytes \<times> rng" where
  "randomBytes n rnd = (map rnd [0..<n], \<lambda>i. rnd (n + i))"

section \<open>\<open>PromiseCrypto\<close> (server/crypto.ts)\<close>

subsection \<open>\<open>encryptPromise\<close>\<close>

definition encryptPromise ::
  "gcm_mode \<Rightarrow> rng \<Rightarrow> nat \<Rightarrow> jsstring \<Rightarrow> jsstring \<Rightarrow> jsstring \<Rightarrow> js_error + jsstring" where
  "encryptPromise G rnd now content privateKey fingerprintData =
     (let combinedData = JSON_stringify (JObject
            [(js ''content'', JString content),
             (js ''privateKey'', JString privateKey),
             (js ''fingerprint'', JString fingerprintData),
             (js ''timestamp'', JNum (int now))]);
          (key, rnd1) = randomBytes 32 rnd;
          (iv, rnd2) = randomBytes 16 rnd1
      in case gcm_encrypt G key iv (utf8_encode (js ''promiseshare-auth''))
                (utf8_encode combinedData) of
           Inl e \<Rightarrow> Inl e
         | Inr (encrypted, authTag) \<Rightarrow>
             Inr (toBase64 (utf8_encode (JSON_stringify (JObject
                    [(js ''key'', JString (toHex key)),
                     (js ''iv'', JString (toHex iv)),
                     (js ''authTag'', JString (toHex authTag)),
                     (js ''encrypted'', JString (toHex encrypted))])))))"

subsection \<open>\<open>decryptPromise\<close>\<close>

text \<open>
  \<open>Buffer.from(v, 'hex')\<close> and \<open>decipher.update(v, 'hex', 'utf8')\<close> for a value read from
  a parsed object: a string is decoded; \<open>undefined\<close>, \<open>null\<close>, a number or a boolean is a
  \<open>TypeError\<close>. (An array, which \<open>Buffer.from\<close> would copy, is classed with them.)
\<close>

definition hex_argument :: "json option \<Rightarrow> js_error + bytes" where
  "hex_argument v = (case v of Some (JString s) \<Rightarrow> Inr (fromHex s) | _ \<Rightarrow> Inl TypeError)"

text \<open>The body of the \<open>try\<close> block.\<close>

definition decryptPromise_body :: "gcm_mode \<Rightarrow> jsstring \<Rightarrow> js_error + json" where
  "decryptPromise_body G encryptedData =
     (case JSON_parse (utf8_decode (fromBase64 encryptedData)) of
        None \<Rightarrow> Inl SyntaxError
      | Some encryptedPackage \<Rightarrow>
     (case get_prop encryptedPackage (js ''key'') of Inl e \<Rightarrow> Inl e | Inr k \<Rightarrow>
     (case hex_argument k of Inl e \<Rightarrow> Inl e | Inr key \<Rightarrow>
     (case get_prop encryptedPackage (js ''iv'') of Inl e \<Rightarrow> Inl e | Inr i \<Rightarrow>
     (case hex_argument i of Inl e \<Rightarrow> Inl e | Inr iv \<Rightarrow>
     (case get_prop encryptedPackage (js ''authTag'') of Inl e \<Rightarrow> Inl e | Inr t \<Rightarrow>
     (case hex_argument t of Inl e \<Rightarrow> Inl e | Inr authTag \<Rightarrow>
     (case get_prop encryptedPackage (js ''encrypted'') of Inl e \<Rightarrow> Inl e | Inr c \<Rightarrow>
     (case hex_argument c of Inl e \<Rightarrow> Inl e | Inr encrypted \<Rightarrow>
     (case gcm_decrypt G key iv (utf8_encode (js ''promiseshare-auth'')) authTag encrypted of
        Inl e \<Rightarrow> Inl e
      | Inr plain \<Rightarrow>
     (case JSON_parse (utf8_decode plain) of
        None \<Rightarrow> Inl SyntaxError
      | Some decrypted \<Rightarrow> Inr decrypted)))))))))))"

definition decryptPromise :: "gcm_mode \<Rightarrow> jsstring \<Rightarrow> js_error + json" where
  "decryptPromise G encryptedData =
     (case decryptPromise_body G encryptedData of
        Inl e \<Rightarrow> Inl (Error (js ''Failed to decrypt promise data''))
      | Inr decrypted \<Rightarrow> Inr decrypted)"

subsection \<open>\<open>generateCertificate\<close>\<close>

definition generateCertificate :: "nat \<Rightarrow> jsstring \<Rightarrow> jsstring \<Rightarrow> jsstring \<Rightarrow> jsstring" where
  "generateCertificate now promiseId publicKey creatorFingerprint =
     (let certificateData = JObject
            [(js ''promiseId'', JString promiseId),
             (js ''publicKey'', JString publicKey),
             (js ''creatorFingerprint'', JString creatorFingerprint),
             (js ''issuedAt'', JNum (int now)),
             (js ''issuer'', JString (js ''PromiseShare Authority''))];
          hmacKey = sha256 (utf8_encode (js ''promiseshare-cert-authority''));
          signature = toHex (hmac_sha256 hmacKey (utf8_encode (JSON_stringify certificateData)))
      in toBase64 (utf8_encode (JSON_stringify (JObject
           [(js ''data'', certificateData),
            (js ''signature'', JString signature)]))))"

subsection \<open>\<open>validateCertificate\<close>\<close>

text \<open>
  The body of the \<open>try\<close> block. \<open>JSON.stringify(undefined)\<close> is \<open>undefined\<close>, and
  \<open>hmac.update(undefined)\<close> throws.
\<close>

definition validateCertificate_body :: "jsstring \<Rightarrow> jsstring \<Rightarrow> js_error + bool" where
  "validateCertificate_body certificate publicKey =
     (case JSON_parse (utf8_decode (fromBase64 certificate)) of
        None \<Rightarrow> Inl SyntaxError
      | Some cert \<Rightarrow>
     (let hmacKey = sha256 (utf8_encode (js ''promiseshare-cert-authority'')) in
     (case get_prop cert (js ''data'') of Inl e \<Rightarrow> Inl e | Inr d \<Rightarrow>
     (case d of None \<Rightarrow> Inl TypeError | Some certData \<Rightarrow>
     (let expectedSignature =
            toHex (hmac_sha256 hmacKey (utf8_encode (JSON_stringify certData))) in
     (case get_prop cert (js ''signature'') of Inl e \<Rightarrow> Inl e | Inr sg \<Rightarrow>
        Inr (sg = Some (JString expectedSignature))))))))"

definition validateCertificate :: "jsstring \<Rightarrow> jsstring \<Rightarrow> bool" where
  "validateCertificate certificate publicKey =
     (case validateCertificate_body certificate publicKey of
        Inl e \<Rightarrow> False
      | Inr b \<Rightarrow> b)"

subsection \<open>\<open>hashFingerprint\<close>\<close>

definition hashFingerprint :: "jsstring \<Rightarrow> jsstring" where
  "hashFingerprint fingerprintData = toHex (sha256 (utf8_encode fingerprintData))"

section \<open>\<open>WebAuthnPromiseService\<close>\<close>

subsection \<open>The signed-promise file\<close>

text \<open>
  The interface \<open>SignedPromise\<close>. The file comes from outside, so any property may be
  absent: an absent property reads as \<open>undefined\<close>, here \<open>None\<close>.
\<close>

record Creator =
  creator_id :: "jsstring option"
  username :: "jsstring option"

record Assertion =
  credentialId :: "jsstring option"
  clientDataJSON :: "jsstring option"
  authenticatorData :: "jsstring option"
  assertion_signature :: "jsstring option"
  userHandle :: "jsstring option"

record SignedPromise =
  promise_id :: "jsstring option"
  title :: "jsstring option"
  content :: "jsstring option"
  deliveryDate :: "jsstring option"
  createdAt :: "jsstring option"
  creator :: "Creator option"
  encryptedContent :: "jsstring option"
  signature :: "Assertion option"
  publicKey :: "jsstring option"
  challenge :: "jsstring option"
  rpId :: "jsstring option"

subsection \<open>\<open>generateSigningChallenge\<close>\<close>

record PromiseData =
  pd_id :: "jsstring option"
  pd_title :: "jsstring option"
  pd_content :: "jsstring option"
  pd_deliveryDate :: "jsstring option"
  pd_creatorId :: "jsstring option"

definition promiseData_json :: "PromiseData \<Rightarrow> json" where
  "promiseData_json promiseData = object_of
     [(js ''id'', map_option JString (pd_id promiseData)),
      (js ''title'', map_option JString (pd_title promiseData)),
      (js ''content'', map_option JString (pd_content promiseData)),
      (js ''deliveryDate'', map_option JString (pd_deliveryDate promiseData)),
      (js ''creatorId'', map_option JString (pd_creatorId promiseData))]"

definition generateSigningChallenge :: "PromiseData \<Rightarrow> jsstring" where
  "generateSigningChallenge promiseData =
     (let promiseHash = sha256 (utf8_encode (JSON_stringify (promiseData_json promiseData)))
      in toBase64url promiseHash)"

subsection \<open>\<open>encryptPromiseContent\<close>\<close>

text \<open>\<open>cipher.update(content, 'utf8', 'hex')\<close> throws when \<open>content\<close> is \<open>undefined\<close>.\<close>

definition encryptPromiseContent ::
  "gcm_mode \<Rightarrow> rng \<Rightarrow> jsstring option \<Rightarrow> jsstring \<Rightarrow> js_error + jsstring" where
  "encryptPromiseContent G rnd contentArg key =
     (let keyBuffer = sha256 (utf8_encode key);
          (iv, rnd1) = randomBytes 16 rnd
      in case contentArg of
           None \<Rightarrow> Inl TypeError
         | Some contentText \<Rightarrow>
             (case gcm_encrypt G keyBuffer iv [] (utf8_encode contentText) of
                Inl e \<Rightarrow> Inl e
              | Inr (encrypted, authTag) \<Rightarrow>
                  Inr (JSON_stringify (JObject
                         [(js ''encrypted'', JString (toHex encrypted)),
                          (js ''iv'', JString (toHex iv)),
                          (js ''authTag'', JString (toHex authTag))]))))"

subsection \<open>\<open>createSignedPromiseFile\<close>\<close>

text \<open>
  The promise record that the route passes as \<open>promiseData\<close>. In a template literal an
  absent property prints as \<open>undefined\<close>. \<open>env\<close> is the value of the environment variable
  \<open>REPLIT_DOMAINS\<close>; when it is unset or empty, \<open>||\<close> takes \<open>'localhost'\<close>.
\<close>

record PromiseRecord =
  rec_id :: "jsstring option"
  rec_title :: "jsstring option"
  rec_content :: "jsstring option"
  rec_deliveryDate :: "jsstring option"
  rec_createdAt :: "jsstring option"
  rec_creator :: "Creator option"
  rec_creatorId :: "jsstring option"

definition template_text :: "jsstring option \<Rightarrow> jsstring" where
  "template_text v = (case v of None \<Rightarrow> js ''undefined'' | Some t \<Rightarrow> t)"

definition createSignedPromiseFile ::
  "gcm_mode \<Rightarrow> rng \<Rightarrow> nat \<Rightarrow> jsstring option \<Rightarrow> PromiseRecord \<Rightarrow> Assertion \<Rightarrow>
   jsstring \<Rightarrow> jsstring \<Rightarrow> js_error + SignedPromise" where
  "createSignedPromiseFile G rnd now env promiseData signatureData publicKeyArg challengeArg =
     (let encryptionKey = template_text (rec_id promiseData) @ js ''-''
                          @ template_text (rec_creatorId promiseData) @ js ''-'' @ dec now
      in case encryptPromiseContent G rnd (rec_content promiseData) encryptionKey of
           Inl e \<Rightarrow> Inl e
         | Inr encrypted \<Rightarrow>
             Inr \<lparr>promise_id = rec_id promiseData,
                  title = rec_title promiseData,
                  content = rec_content promiseData,
                  deliveryDate = rec_deliveryDate promiseData,
                  createdAt = rec_createdAt promiseData,
                  creator = rec_creator promiseData,
                  encryptedContent = Some encrypted,
                  signature = Some signatureData,
                  publicKey = Some publicKeyArg,
                  challenge = Some challengeArg,
                  rpId = Some (case env of
                                 None \<Rightarrow> js ''localhost''
                               | Some d \<Rightarrow> if d = [] then js ''localhost'' else d)\<rparr>)"

subsection \<open>\<open>verifyWebAuthnSignature\<close>\<close>

text \<open>\<open>Buffer.from(v, 'base64url')\<close>: \<open>undefined\<close> is a \<open>TypeError\<close>.\<close>

definition base64url_argument :: "jsstring option \<Rightarrow> js_error + bytes" where
  "base64url_argument v = (case v of None \<Rightarrow> Inl TypeError | Some s \<Rightarrow> Inr (fromBase64 s))"

definition verifyWebAuthnSignature_body ::
  "'k pkcrypto \<Rightarrow> Assertion \<Rightarrow> jsstring option \<Rightarrow> jsstring option \<Rightarrow> js_error + bool" where
  "verifyWebAuthnSignature_body K sg publicKeyPem expectedChallenge =
     (case base64url_argument (clientDataJSON sg) of Inl e \<Rightarrow> Inl e | Inr clientDataBytes \<Rightarrow>
     (let clientDataHash = sha256 clientDataBytes in
     (case base64url_argument (authenticatorData sg) of
        Inl e \<Rightarrow> Inl e
      | Inr authenticatorDataBuffer \<Rightarrow>
     (let signedData = authenticatorDataBuffer @ clientDataHash in
     (case publicKeyPem of None \<Rightarrow> Inl TypeError | Some pem \<Rightarrow>
     (case createPublicKey K pem of Inl e \<Rightarrow> Inl e | Inr key \<Rightarrow>
     (case base64url_argument (assertion_signature sg) of
        Inl e \<Rightarrow> Inl e
      | Inr signatureBuffer \<Rightarrow> crypto_verify K signedData key signatureBuffer)))))))"

definition verifyWebAuthnSignature ::
  "'k pkcrypto \<Rightarrow> Assertion \<Rightarrow> jsstring option \<Rightarrow> jsstring option \<Rightarrow> bool" where
  "verifyWebAuthnSignature K sg publicKeyPem expectedChallenge =
     (case verifyWebAuthnSignature_body K sg publicKeyPem expectedChallenge of
        Inl e \<Rightarrow> False
      | Inr b \<Rightarrow> b)"

subsection \<open>\<open>verifySignedPromise\<close>\<close>

record Verification =
  isValid :: bool
  isSignatureValid :: bool
  isChallengeValid :: bool
  isDataIntact :: bool
  result_creator :: "jsstring option"
  errorDetails :: "(jsstring + js_error) option"

text \<open>
  \<open>errorDetails\<close> is absent, a text (\<open>Inl\<close>), or the message of the error that was caught
  (\<open>Inr\<close>).
\<close>

definition bool_text :: "bool \<Rightarrow> jsstring" where
  "bool_text b = (if b then js ''true'' else js ''false'')"

text \<open>
  \<open>clientData.origin.includes(rpId)\<close>: on a string it is the substring test, with
  \<open>undefined\<close> read as the text \<open>undefined\<close>; on an array it is membership; any other
  \<open>origin\<close> has no such method.
\<close>

definition origin_includes :: "json option \<Rightarrow> jsstring option \<Rightarrow> js_error + bool" where
  "origin_includes origin rp =
     (case origin of
        Some (JString s) \<Rightarrow>
          Inr (str_includes s (case rp of None \<Rightarrow> js ''undefined'' | Some r \<Rightarrow> r))
      | Some (JArray xs) \<Rightarrow>
          Inr (case rp of None \<Rightarrow> False | Some r \<Rightarrow> JString r \<in> set xs)
      | _ \<Rightarrow> Inl TypeError)"

definition isClientDataValid :: "json \<Rightarrow> SignedPromise \<Rightarrow> js_error + bool" where
  "isClientDataValid clientData signedPromise =
     (case get_prop clientData (js ''type'') of Inl e \<Rightarrow> Inl e | Inr ty \<Rightarrow>
        if ty \<noteq> Some (JString (js ''webauthn.get'')) then Inr False
        else
     (case get_prop clientData (js ''challenge'') of Inl e \<Rightarrow> Inl e | Inr ch \<Rightarrow>
        if ch \<noteq> map_option JString (challenge signedPromise) then Inr False
        else
     (case get_prop clientData (js ''origin'') of Inl e \<Rightarrow> Inl e | Inr origin \<Rightarrow>
        origin_includes origin (rpId signedPromise))))"

definition snapshot_of :: "SignedPromise \<Rightarrow> Creator \<Rightarrow> PromiseData" where
  "snapshot_of signedPromise cr =
     \<lparr>pd_id = promise_id signedPromise,
      pd_title = title signedPromise,
      pd_content = content signedPromise,
      pd_deliveryDate = deliveryDate signedPromise,
      pd_creatorId = creator_id cr\<rparr>"

text \<open>The body of the \<open>try\<close> block, together with the value of \<open>isClientDataValid\<close>.\<close>

definition verifySignedPromise_body ::
  "'k pkcrypto \<Rightarrow> SignedPromise \<Rightarrow> js_error + (Verification \<times> bool)" where
  "verifySignedPromise_body K signedPromise =
     (case creator signedPromise of None \<Rightarrow> Inl TypeError | Some cr \<Rightarrow>
     (let expectedChallenge = generateSigningChallenge (snapshot_of signedPromise cr);
          challengeValid = (challenge signedPromise = Some expectedChallenge) in
     (case signature signedPromise of None \<Rightarrow> Inl TypeError | Some sg \<Rightarrow>
     (case base64url_argument (clientDataJSON sg) of Inl e \<Rightarrow> Inl e | Inr clientDataBytes \<Rightarrow>
     (case JSON_parse (utf8_decode clientDataBytes) of
        None \<Rightarrow> Inl SyntaxError
      | Some clientData \<Rightarrow>
     (case isClientDataValid clientData signedPromise of
        Inl e \<Rightarrow> Inl e
      | Inr clientDataValid \<Rightarrow>
     (let signatureValid =
            verifyWebAuthnSignature K sg (publicKey signedPromise) (challenge signedPromise);
          dataIntact = True;
          valid = (challengeValid \<and> clientDataValid \<and> signatureValid \<and> dataIntact)
      in Inr (\<lparr>isValid = valid,
                isSignatureValid = signatureValid,
                isChallengeValid = challengeValid,
                isDataIntact = dataIntact,
                result_creator = username cr,
                errorDetails =
                  (if valid then None
                   else Some (Inl (js ''Challenge: '' @ bool_text challengeValid
                                   @ js '', ClientData: '' @ bool_text clientDataValid
                                   @ js '', Signature: '' @ bool_text signatureValid)))\<rparr>,
              clientDataValid))))))))"

text \<open>
  The \<open>catch\<close> block: \<open>signedPromise.creator?.username || 'Unknown'\<close> takes \<open>'Unknown'\<close>
  also for the empty user name, which is falsy.
\<close>

definition username_or_unknown :: "SignedPromise \<Rightarrow> jsstring" where
  "username_or_unknown signedPromise =
     (case creator signedPromise of
        None \<Rightarrow> js ''Unknown''
      | Some cr \<Rightarrow>
          (case username cr of
             None \<Rightarrow> js ''Unknown''
           | Some u \<Rightarrow> if u = [] then js ''Unknown'' else u))"

definition verifySignedPromise :: "'k pkcrypto \<Rightarrow> SignedPromise \<Rightarrow> Verification" where
  "verifySignedPromise K signedPromise =
     (case verifySignedPromise_body K signedPromise of
        Inr (result, clientDataValid) \<Rightarrow> result
      | Inl error \<Rightarrow>
          \<lparr>isValid = False,
           isSignatureValid = False,
           isChallengeValid = False,
           isDataIntact = False,
           result_creator = Some (username_or_unknown signedPromise),
           errorDetails = Some (Inr error)\<rparr>)"

section \<open>Notions for the statements\<close>

text \<open>
  The parts from which \<open>generateCertificate\<close> builds a certificate: the data object, the
  signature of the authority over a data object, and the text of a certificate with given
  data and signature. A tampered certificate is the text of changed data with the old
  signature.
\<close>

definition certificateData :: "nat \<Rightarrow> jsstring \<Rightarrow> jsstring \<Rightarrow> jsstring \<Rightarrow> json" where
  "certificateData now promiseId publicKeyText fingerprintText = JObject
     [(js ''promiseId'', JString promiseId),
      (js ''publicKey'', JString publicKeyText),
      (js ''creatorFingerprint'', JString fingerprintText),
      (js ''issuedAt'', JNum (int now)),
      (js ''issuer'', JString (js ''PromiseShare Authority''))]"

definition authority_hmac :: "json \<Rightarrow> bytes" where
  "authority_hmac d =
     hmac_sha256 (sha256 (utf8_encode (js ''promiseshare-cert-authority'')))
       (utf8_encode (JSON_stringify d))"

definition certificate_text :: "json \<Rightarrow> jsstring \<Rightarrow> jsstring" where
  "certificate_text d sg =
     toBase64 (utf8_encode (JSON_stringify (JObject
       [(js ''data'', d), (js ''signature'', JString sg)])))"

text \<open>
  The envelope of \<open>encryptPromise\<close> and the plaintext it seals, as JSON values, and the
  test for a text of lower-case hex digits.
\<close>

definition envelope_package :: "bytes \<Rightarrow> bytes \<Rightarrow> bytes \<Rightarrow> bytes \<Rightarrow> json" where
  "envelope_package key iv authTag encrypted = JObject
     [(js ''key'', JString (toHex key)),
      (js ''iv'', JString (toHex iv)),
      (js ''authTag'', JString (toHex authTag)),
      (js ''encrypted'', JString (toHex encrypted))]"

definition sealed_record :: "jsstring \<Rightarrow> jsstring \<Rightarrow> jsstring \<Rightarrow> nat \<Rightarrow> json" where
  "sealed_record contentText privateKeyText fingerprintText now = JObject
     [(js ''content'', JString contentText),
      (js ''privateKey'', JString privateKeyText),
      (js ''fingerprint'', JString fingerprintText),
      (js ''timestamp'', JNum (int now))]"

text \<open>
  What one call of \<open>encryptPromise\<close> draws and computes: the key and the IV from the
  random generator, the associated data, the ciphertext and the tag.
\<close>

definition seal_key :: "rng \<Rightarrow> bytes" where
  "seal_key rnd = map rnd [0..<32]"

definition seal_iv :: "rng \<Rightarrow> bytes" where
  "seal_iv rnd = map (\<lambda>i. rnd (32 + i)) [0..<16]"

definition seal_aad :: bytes where
  "seal_aad = utf8_encode (js ''promiseshare-auth'')"

definition seal_ciphertext :: "gcm_mode \<Rightarrow> rng \<Rightarrow> json \<Rightarrow> bytes" where
  "seal_ciphertext G rnd v =
     ctr_xor (keystream G (seal_key rnd) (seal_iv rnd)) (utf8_encode (JSON_stringify v))"

definition seal_tag :: "gcm_mode \<Rightarrow> rng \<Rightarrow> json \<Rightarrow> bytes" where
  "seal_tag G rnd v =
     gcm_tag G (seal_key rnd) (seal_iv rnd) seal_aad (seal_ciphertext G rnd v)"

definition is_lower_hex :: "jsstring \<Rightarrow> bool" where
  "is_lower_hex s =
     list_all (\<lambda>c. (48 \<le> unat c \<and> unat c \<le> 57) \<or> (97 \<le> unat c \<and> unat c \<le> 102)) s"

section \<open>Test data\<close>

text \<open>The snapshot of the artifact tamper test, and the same snapshot with the content changed.\<close>

definition snapshot_friday :: PromiseData where
  "snapshot_friday =
     \<lparr>pd_id = Some (js ''p1''),
      pd_title = Some (js ''Deliver report''),
      pd_content = Some (js ''I will deliver by Friday''),
      pd_deliveryDate = Some (js ''2025-01-10''),
      pd_creatorId = Some (js ''u1'')\<rparr>"

definition snapshot_monday :: PromiseData where
  "snapshot_monday = snapshot_friday\<lparr>pd_content := Some (js ''I will deliver by Monday'')\<rparr>"

text \<open>
  A signed-promise file over the first snapshot. Its \<open>clientDataJSON\<close> is the base64url
  text of
  \<^verbatim>\<open>{"type":"webauthn.get","challenge":"U76MPyNUrvW3bdMLfY8yTbriA8U5LIkpblx4ybFvzjg","origin":"http://localhost:5000"}\<close>.
\<close>

definition assertion_friday :: Assertion where
  "assertion_friday =
     \<lparr>credentialId = Some (js ''credential-1''),
      clientDataJSON = Some (js
        ''eyJ0eXBlIjoid2ViYXV0aG4uZ2V0IiwiY2hhbGxlbmdlIjoiVTc2TVB5TlVydlczYmRNTGZZOHlUYnJpQThVNUxJa3BibHg0eWJGdnpqZyIsIm9yaWdpbiI6Imh0dHA6Ly9sb2NhbGhvc3Q6NTAwMCJ9''),
      authenticatorData = Some (js ''SZYN5YgOjGh0NBcPZHZgW4_krrmihjLHmVzzuoMdl2MFAAAAAA''),
      assertion_signature = Some (js ''MEUCIQDx4Z3Jx0c''),
      userHandle = Some (js ''dTE'')\<rparr>"

definition creator_alice :: Creator where
  "creator_alice = \<lparr>creator_id = Some (js ''u1''), username = Some (js ''alice'')\<rparr>"

definition artifact_friday :: SignedPromise where
  "artifact_friday =
     \<lparr>promise_id = Some (js ''p1''),
      title = Some (js ''Deliver report''),
      content = Some (js ''I will deliver by Friday''),
      deliveryDate = Some (js ''2025-01-10''),
      createdAt = Some (js ''2025-01-01T09:00:00.000Z''),
      creator = Some creator_alice,
      encryptedContent = Some (js ''{}''),
      signature = Some assertion_friday,
      publicKey = Some (js ''-----BEGIN PUBLIC KEY-----''),
      challenge = Some (js ''U76MPyNUrvW3bdMLfY8yTbriA8U5LIkpblx4ybFvzjg''),
      rpId = Some (js ''localhost'')\<rparr>"

text \<open>The same file with a \<open>clientDataJSON\<close> that is the base64url text of \<open>not json\<close>.\<close>

definition assertion_bad_client_data :: Assertion where
  "assertion_bad_client_data = assertion_friday\<lparr>clientDataJSON := Some (js ''bm90IGpzb24'')\<rparr>"

definition artifact_bad_client_data :: SignedPromise where
  "artifact_bad_client_data = artifact_friday\<lparr>signature := Some assertion_bad_client_data\<rparr>"



text \<open>The promise record from which the route builds the file of the first snapshot.\<close>

definition record_friday :: PromiseRecord where
  "record_friday =
     \<lparr>rec_id = Some (js ''p1''),
      rec_title = Some (js ''Deliver report''),
      rec_content = Some (js ''I will deliver by Friday''),
      rec_deliveryDate = Some (js ''2025-01-10''),
      rec_createdAt = Some (js ''2025-01-01T09:00:00.000Z''),
      rec_creator = Some creator_alice,
      rec_creatorId = Some (js ''u1'')\<rparr>"

text \<open>
  A stand-in for the public-key primitives: every PEM text is taken as a key, and every
  signature check has the outcome \<open>accept\<close>.
\<close>

text \<open>
  A stand-in for the block cipher behind GCM, to run the code on: the key stream repeats
  the key, and byte \<open>i\<close> of the tag is byte \<open>i\<close> of the associated data XOR byte \<open>i\<close> of
  the key. Two states of the random generator follow.
\<close>

definition stub_gcm :: gcm_mode where
  "stub_gcm =
     \<lparr>keystream = (\<lambda>key iv i. key ! (i mod 32)),
      auth_tag = (\<lambda>key iv aad ct i. (aad ! i) XOR (key ! i))\<rparr>"

definition rng_zero :: rng where
  "rng_zero = (\<lambda>i. 0)"

definition rng_one :: rng where
  "rng_one = (\<lambda>i. 1)"

definition stub_keys :: "bool \<Rightarrow> jsstring pkcrypto" where
  "stub_keys accept =
     \<lparr>createPublicKey = (\<lambda>pem. Inr pem), crypto_verify = (\<lambda>signedData key sg. Inr accept)\<rparr>"

text \<open>
  What \<open>encryptPromise('hi', 'pk', 'fp')\<close> returns at clock reading 1 when every random
  byte is 0, with the stand-in above: the envelope, the object it encodes, and the record
  that was sealed.
\<close>

definition envelope_hi :: jsstring where
  "envelope_hi = js (''eyJrZXkiOiIwMDAwMDAwMDAwMDAwMDAwMDAwMDAwMDAwMDAwMDAwMDAwMDAwMDAw'' @
     ''MDAwMDAwMDAwMDAwMDAwMDAwMDAwMDAwIiwiaXYiOiIwMDAwMDAwMDAwMDAwMDAw'' @
     ''MDAwMDAwMDAwMDAwMDAwMCIsImF1dGhUYWciOiI3MDcyNmY2ZDY5NzM2NTczNjg2'' @
     ''MTcyNjUyZDYxNzU3NCIsImVuY3J5cHRlZCI6IjdiMjI2MzZmNmU3NDY1NmU3NDIy'' @
     ''M2EyMjY4NjkyMjJjMjI3MDcyNjk3NjYxNzQ2NTRiNjU3OTIyM2EyMjcwNmIyMjJj'' @
     ''MjI2NjY5NmU2NzY1NzI3MDcyNjk2ZTc0MjIzYTIyNjY3MDIyMmMyMjc0Njk2ZDY1'' @
     ''NzM3NDYxNmQ3MDIyM2EzMTdkIn0='')"

definition package_hi :: json where
  "package_hi = JObject
     [(js ''key'', JString (js ''0000000000000000000000000000000000000000000000000000000000000000'')),
      (js ''iv'', JString (js ''00000000000000000000000000000000'')),
      (js ''authTag'', JString (js ''70726f6d69736573686172652d617574'')),
      (js ''encrypted'', JString (js (''7b22636f6e74656e74223a226869222c22707269766174654b6579223a22706b'' @
         ''222c2266696e6765727072696e74223a226670222c2274696d657374616d70223a317d'')))]"

definition record_hi :: json where
  "record_hi = JObject
     [(js ''content'', JString (js ''hi'')),
      (js ''privateKey'', JString (js ''pk'')),
      (js ''fingerprint'', JString (js ''fp'')),
      (js ''timestamp'', JNum 1)]"

section \<open>Evaluation\<close>

text \<open>Equations for running the definitions on concrete inputs inside the logic.\<close>

lemmas parse_value_numeral = parse_value.simps(2) [of "pred_numeral k" for k, folded numeral_eq_Suc]
lemmas parse_elements_numeral = parse_elements.simps(2) [of "pred_numeral k" for k, folded numeral_eq_Suc]
lemmas parse_members_numeral = parse_members.simps(2) [of "pred_numeral k" for k, folded numeral_eq_Suc]

lemma replicate_numeral: "replicate (numeral k) x = x # replicate (pred_numeral k) x"
  by (simp add: numeral_eq_Suc)

lemmas encoding_eval = js_def toBase64_def toBase64url_def fromBase64_def b64char_def unbase64_def
  hexdigit_def hexval_def toHex_def utf8_1_def utf8_2_def utf8_3_def utf8_4_def is_high_def
  is_low_def pair_code_point_def is_cont_def second_ok_def code_units_def Let_def

lemmas json_eval = hex4_def escape_unit_def json_quote_def number_text_def dec.simps object_of_def
  unescape_def cons_result_def hex4_value_def is_digit_def digits_value_def parse_fraction_def
  parse_exponent_def parse_number_def is_index_def mk_object_def JSON_parse_def
  parse_value_numeral parse_elements_numeral parse_members_numeral List.map_filter_def

lemmas sha_eval = replicate_numeral sha256_def pad_def bytes64_def bytes32_def compress_def
  K256_def H0_def add32_def T1_def T2_def next_state_def next_word_def rotr_def shr_def Ch_def
  Maj_def Sigma0_def Sigma1_def sigma0_def sigma1_def

lemma verifyWebAuthnSignature_ignores_challenge:
  "verifyWebAuthnSignature K sg pem c1 = verifyWebAuthnSignature K sg pem c2"
  by (simp add: verifyWebAuthnSignature_def verifyWebAuthnSignature_body_def)

lemma client_data_friday:
  "JSON_parse (utf8_decode (fromBase64 (js
        ''eyJ0eXBlIjoid2ViYXV0aG4uZ2V0IiwiY2hhbGxlbmdlIjoiVTc2TVB5TlVydlczYmRNTGZZOHlUYnJpQThVNUxJa3BibHg0eWJGdnpqZyIsIm9yaWdpbiI6Imh0dHA6Ly9sb2NhbGhvc3Q6NTAwMCJ9'')))
   = Some (JObject [(js ''type'', JString (js ''webauthn.get'')),
                    (js ''challenge'', JString (js ''U76MPyNUrvW3bdMLfY8yTbriA8U5LIkpblx4ybFvzjg'')),
                    (js ''origin'', JString (js ''http://localhost:5000''))])"
  by (simp add: encoding_eval json_eval)

lemma client_data_bad: "JSON_parse (utf8_decode (fromBase64 (js ''bm90IGpzb24''))) = None"
  by (simp add: encoding_eval json_eval)


lemma friday_text:
  "utf8_encode (JSON_stringify (promiseData_json snapshot_friday)) =
     map of_nat [123, 34, 105, 100, 34, 58, 34, 112, 49, 34, 44, 34, 116, 105, 116, 108, 101, 34, 58, 34, 68, 101, 108, 105, 118, 101, 114, 32, 114, 101, 112, 111, 114, 116, 34, 44, 34, 99, 111, 110, 116, 101, 110, 116, 34, 58, 34, 73, 32, 119, 105, 108, 108, 32, 100, 101, 108, 105, 118, 101, 114, 32, 98, 121, 32, 70, 114, 105, 100, 97, 121, 34, 44, 34, 100, 101, 108, 105, 118, 101, 114, 121, 68, 97, 116, 101, 34, 58, 34, 50, 48, 50, 53, 45, 48, 49, 45, 49, 48, 34, 44, 34, 99, 114, 101, 97, 116, 111, 114, 73, 100, 34, 58, 34, 117, 49, 34, 125]"
  by (simp add: encoding_eval json_eval promiseData_json_def snapshot_friday_def)

lemma friday_hash:
  "sha256 (utf8_encode (JSON_stringify (promiseData_json snapshot_friday))) =
     [83, 190, 140, 63, 35, 84, 174, 245, 183, 109, 211, 11, 125, 143, 50, 77, 186, 226, 3, 197, 57, 44, 137, 41, 110, 92, 120, 201, 177, 111, 206, 56]"
  unfolding friday_text by (simp add: sha_eval)

lemma friday_challenge:
  "generateSigningChallenge snapshot_friday = js ''U76MPyNUrvW3bdMLfY8yTbriA8U5LIkpblx4ybFvzjg''"
  unfolding generateSigningChallenge_def friday_hash by (simp add: encoding_eval)

lemma snapshot_of_artifact_friday:
  "snapshot_of artifact_friday creator_alice = snapshot_friday"
  by (simp add: snapshot_of_def artifact_friday_def snapshot_friday_def creator_alice_def)

lemma body_artifact_friday:
  "verifySignedPromise_body (stub_keys True) artifact_friday =
     Inr (\<lparr>isValid = True, isSignatureValid = True, isChallengeValid = True,
           isDataIntact = True, result_creator = Some (js ''alice''), errorDetails = None\<rparr>, True)"
proof -
  have cd: "isClientDataValid
      (JObject [(js ''type'', JString (js ''webauthn.get'')),
                (js ''challenge'', JString (js ''U76MPyNUrvW3bdMLfY8yTbriA8U5LIkpblx4ybFvzjg'')),
                (js ''origin'', JString (js ''http://localhost:5000''))]) artifact_friday = Inr True"
    by (simp add: isClientDataValid_def origin_includes_def artifact_friday_def js_def)
  have sg: "\<And>c. verifyWebAuthnSignature (stub_keys True) assertion_friday
      (publicKey artifact_friday) c = True"
    by (simp add: verifyWebAuthnSignature_def verifyWebAuthnSignature_body_def stub_keys_def
        assertion_friday_def artifact_friday_def base64url_argument_def)
  have a: "creator artifact_friday = Some creator_alice"
    "username creator_alice = Some (js ''alice'')"
    "signature artifact_friday = Some assertion_friday"
    "challenge artifact_friday = Some (js ''U76MPyNUrvW3bdMLfY8yTbriA8U5LIkpblx4ybFvzjg'')"
    by (simp_all add: artifact_friday_def creator_alice_def)
  have j: "clientDataJSON assertion_friday = Some (js
        ''eyJ0eXBlIjoid2ViYXV0aG4uZ2V0IiwiY2hhbGxlbmdlIjoiVTc2TVB5TlVydlczYmRNTGZZOHlUYnJpQThVNUxJa3BibHg0eWJGdnpqZyIsIm9yaWdpbiI6Imh0dHA6Ly9sb2NhbGhvc3Q6NTAwMCJ9'')"
    by (simp add: assertion_friday_def)
  show ?thesis
    unfolding verifySignedPromise_body_def
    by (simp add: a j snapshot_of_artifact_friday friday_challenge base64url_argument_def
        client_data_friday cd sg Let_def)
qed

lemma monday_text:
  "utf8_encode (JSON_stringify (promiseData_json snapshot_monday)) =
     map of_nat [123, 34, 105, 100, 34, 58, 34, 112, 49, 34, 44, 34, 116, 105, 116, 108, 101, 34, 58, 34, 68, 101, 108, 105, 118, 101, 114, 32, 114, 101, 112, 111, 114, 116, 34, 44, 34, 99, 111, 110, 116, 101, 110, 116, 34, 58, 34, 73, 32, 119, 105, 108, 108, 32, 100, 101, 108, 105, 118, 101, 114, 32, 98, 121, 32, 77, 111, 110, 100, 97, 121, 34, 44, 34, 100, 101, 108, 105, 118, 101, 114, 121, 68, 97, 116, 101, 34, 58, 34, 50, 48, 50, 53, 45, 48, 49, 45, 49, 48, 34, 44, 34, 99, 114, 101, 97, 116, 111, 114, 73, 100, 34, 58, 34, 117, 49, 34, 125]"
  by (simp add: encoding_eval json_eval promiseData_json_def snapshot_friday_def snapshot_monday_def)

lemma monday_hash:
  "sha256 (utf8_encode (JSON_stringify (promiseData_json snapshot_monday))) =
     [181, 142, 148, 121, 214, 249, 197, 253, 62, 29, 166, 114, 121, 123, 57, 124, 102, 24, 248, 130, 97, 97, 98, 15, 150, 206, 238, 139, 232, 4, 44, 88]"
  unfolding monday_text by (simp add: sha_eval)

lemma monday_challenge:
  "generateSigningChallenge snapshot_monday = js ''tY6Uedb5xf0-HaZyeXs5fGYY-IJhYWIPls7ui-gELFg''"
  unfolding generateSigningChallenge_def monday_hash by (simp add: encoding_eval)

lemma length_rounds: "length (rounds s ks ws) = length s"
  by (induction s ks ws rule: rounds.induct) (simp_all add: next_state_def)

lemma length_compress: "length (compress h blk) = length h"
  by (simp add: compress_def length_rounds)

lemma length_blocks: "length (blocks h m) = length h"
  by (induction h m rule: blocks.induct) (simp_all add: length_compress)

lemma length_concat_bytes32: "length (concat (map bytes32 ws)) = 4 * length ws"
  by (induction ws) (simp_all add: bytes32_def)

lemma length_sha256: "length (sha256 m) = 32"
  by (simp add: sha256_def length_concat_bytes32 length_blocks H0_def)

section \<open>The encodings are invertible\<close>

subsection \<open>base64\<close>

lemma unat_byte_less: "unat (b :: byte) < 256"
  using unsigned_less [of b, where ?'a = nat] by simp

lemma unat_jschar_less: "unat (c :: jschar) < 65536"
  using unsigned_less [of c, where ?'a = nat] by simp

lemma div_mod_small:
  fixes x y n :: nat
  assumes "y < n"
  shows "(x * n + y) div n = x" and "(x * n + y) mod n = y"
  using assms by simp_all

lemma small_div:
  fixes b :: nat
  shows "b < 256 \<Longrightarrow> b div 16 < 16" and "b < 256 \<Longrightarrow> b div 64 < 4"
    and "b < 256 \<Longrightarrow> b div 4 < 64"
  by (simp_all add: less_mult_imp_div_less)

lemma b64_regroup:
  fixes a b c :: nat
  assumes "a < 256" "b < 256" "c < 256"
  shows "a div 4 * 4 + (a mod 4 * 16 + b div 16) div 16 = a"
    and "(a mod 4 * 16 + b div 16) mod 16 * 16 + (b mod 16 * 4 + c div 64) div 4 = b"
    and "(b mod 16 * 4 + c div 64) mod 4 * 64 + c mod 64 = c"
    and "(a mod 4 * 16 + b div 16) mod 16 * 16 + (b mod 16 * 4) div 4 = b"
    and "a div 4 * 4 + (a mod 4 * 16) div 16 = a"
  using assms by (simp_all add: div_mod_small small_div)

lemma b64_index_bounds:
  fixes a b c :: nat
  assumes "a < 256" "b < 256" "c < 256"
  shows "a div 4 < 64" and "a mod 4 * 16 + b div 16 < 64" and "b mod 16 * 4 + c div 64 < 64"
    and "c mod 64 < 64" and "b mod 16 * 4 < 64" and "a mod 4 * 16 < 64"
proof -
  have "a mod 4 < 4" "b mod 16 < 16" "b div 16 < 16" "c div 64 < 4"
    using assms by (simp_all add: small_div)
  then show "a div 4 < 64" and "a mod 4 * 16 + b div 16 < 64"
    and "b mod 16 * 4 + c div 64 < 64" and "c mod 64 < 64" and "b mod 16 * 4 < 64"
    and "a mod 4 * 16 < 64"
    using assms by (simp_all add: small_div)
qed

lemma unat_of_nat_jschar: "n < 65536 \<Longrightarrow> unat (of_nat n :: jschar) = n"
  by (simp add: unat_of_nat)

lemma unat_of_nat_byte: "n < 256 \<Longrightarrow> unat (of_nat n :: byte) = n"
  by (simp add: unat_of_nat)

lemma unat_b64char:
  assumes "n < 64"
  shows "unat (b64char url n) =
     (if n < 26 then 65 + n else if n < 52 then 71 + n else if n < 62 then n - 4
      else if n = 62 then (if url then 45 else 43) else (if url then 95 else 47))"
  using assms unfolding b64char_def
  by (simp add: unat_of_nat_jschar del: of_nat_add of_nat_diff)

lemma unbase64_b64char:
  assumes "n < 64"
  shows "unbase64 (b64char url n) = Some n"
  using assms unfolding unbase64_def unat_b64char [OF assms] Let_def
  by auto

lemma b64_sextets_char:
  "n < 64 \<Longrightarrow> b64_sextets (b64char url n # cs) = n # b64_sextets cs"
  by (simp add: unbase64_b64char)

lemma b64_sextets_pad: "b64_sextets (61 # cs) = []"
  by (simp add: unbase64_def)

lemma fromBase64_b64_encode: "fromBase64 (b64_encode url bs) = bs"
proof (induction url bs rule: b64_encode.induct)
  case (1 url a b c r)
  note bd = unat_byte_less [of a] unat_byte_less [of b] unat_byte_less [of c]
  note g = b64_regroup [OF bd] and h = b64_index_bounds [OF bd]
  have "b64_sextets (b64_encode url (a # b # c # r)) =
      unat a div 4 # (unat a mod 4 * 16 + unat b div 16) #
      (unat b mod 16 * 4 + unat c div 64) # unat c mod 64 # b64_sextets (b64_encode url r)"
    by (simp only: b64_encode.simps append.simps b64_sextets_char h)
  then show ?case
    using 1 by (simp only: fromBase64_def b64_bytes.simps g of_nat_unat unsigned_eq_0_iff)
       simp
next
  case (2 url a b)
  note bd = unat_byte_less [of a] unat_byte_less [of b] unat_byte_less [of b]
  note g = b64_regroup [OF bd] and h = b64_index_bounds [OF bd]
  have "b64_sextets (b64_encode url [a, b]) =
      [unat a div 4, unat a mod 4 * 16 + unat b div 16, unat b mod 16 * 4]"
    by (cases url) (simp_all only: b64_encode.simps append.simps b64_sextets_char h
        b64_sextets_pad b64_sextets.simps(1) if_True if_False)
  then show ?case
    by (simp only: fromBase64_def b64_bytes.simps g of_nat_unat) simp
next
  case (3 url a)
  note bd = unat_byte_less [of a] unat_byte_less [of a] unat_byte_less [of a]
  note g = b64_regroup [OF bd] and h = b64_index_bounds [OF bd]
  have "b64_sextets (b64_encode url [a]) = [unat a div 4, unat a mod 4 * 16]"
    by (cases url) (simp_all only: b64_encode.simps append.simps b64_sextets_char h
        b64_sextets_pad b64_sextets.simps(1) if_True if_False)
  then show ?case
    by (simp only: fromBase64_def b64_bytes.simps g of_nat_unat) simp
next
  case (4 url)
  show ?case by (simp add: fromBase64_def)
qed

lemma toBase64url_inj: "toBase64url xs = toBase64url ys \<Longrightarrow> xs = ys"
  by (metis fromBase64_b64_encode toBase64url_def)

lemma fromBase64_toBase64: "fromBase64 (toBase64 bs) = bs"
  by (simp add: toBase64_def fromBase64_b64_encode)

subsection \<open>hex\<close>

lemma unat_hexdigit:
  "n < 16 \<Longrightarrow> unat (hexdigit n) = (if n < 10 then 48 + n else 87 + n)"
  unfolding hexdigit_def by (simp add: unat_of_nat_jschar del: of_nat_add)

lemma hexval_hexdigit: "n < 16 \<Longrightarrow> hexval (hexdigit n) = Some n"
  unfolding hexval_def Let_def by (simp add: unat_hexdigit)

lemma byte_nibbles: "unat (b :: byte) div 16 < 16" "unat (b :: byte) mod 16 < 16"
  using unat_byte_less [of b] by (simp_all add: small_div)

lemma fromHex_toHex: "fromHex (toHex bs) = bs"
proof (induction bs)
  case Nil
  show ?case by (simp add: toHex_def)
next
  case (Cons b bs)
  have "toHex (b # bs) = hexdigit (unat b div 16) # hexdigit (unat b mod 16) # toHex bs"
    by (simp add: toHex_def)
  then show ?case
    using Cons by (simp add: hexval_hexdigit byte_nibbles)
qed

lemma length_toHex: "length (toHex bs) = 2 * length bs"
  by (induction bs) (simp_all add: toHex_def)

lemma toHex_inj: "toHex xs = toHex ys \<Longrightarrow> xs = ys"
  by (metis fromHex_toHex)

subsection \<open>utf8\<close>

lemma jschar_of_unat: "(of_nat (unat (u :: jschar)) :: jschar) = u"
  by simp

lemma utf8_decode_1:
  assumes "n < 128"
  shows "utf8_decode (utf8_1 n @ bs) = of_nat n # utf8_decode bs"
  using assms by (simp add: utf8_1_def unat_of_nat_byte)

lemma split64: fixes n :: nat shows "n div 64 * 64 + n mod 64 = n"
  by simp

lemma mod64_le: fixes n :: nat shows "n mod 64 \<le> 63"
proof -
  have "n mod 64 < 64" by simp
  then show ?thesis by linarith
qed

lemma utf8_decode_2:
  assumes "128 \<le> n" "n < 2048"
  shows "utf8_decode (utf8_2 n @ bs) = of_nat n # utf8_decode bs"
proof -
  have d: "2 \<le> n div 64" "n div 64 < 32"
    using assms by (simp_all add: less_mult_imp_div_less le_div_geq)
  have b1: "unat (of_nat (192 + n div 64) :: byte) = 192 + n div 64"
    using d by (intro unat_of_nat_byte) simp
  have b2: "unat (of_nat (128 + n mod 64) :: byte) = 128 + n mod 64"
    by (intro unat_of_nat_byte) simp
  have "utf8_decode (of_nat (192 + n div 64) # of_nat (128 + n mod 64) # bs)
        = code_units (n div 64 * 64 + n mod 64) @ utf8_decode bs"
    using d by (simp add: b1 b2 is_cont_def mod64_le del: of_nat_add)
  then show ?thesis
    using assms by (simp add: utf8_2_def code_units_def del: of_nat_add)
qed

lemma split4096: fixes n :: nat shows "(n div 4096 * 64 + n div 64 mod 64) * 64 + n mod 64 = n"
proof -
  have "n div 4096 = n div 64 div 64" by (simp add: div_mult2_eq)
  then have "n div 4096 * 64 + n div 64 mod 64 = n div 64" by simp
  then show ?thesis by simp
qed

lemma utf8_decode_3:
  assumes "2048 \<le> n" "n < 65536" "\<not> (55296 \<le> n \<and> n < 57344)"
  shows "utf8_decode (utf8_3 n @ bs) = of_nat n # utf8_decode bs"
proof -
  have d: "n div 4096 < 16"
    using assms by (simp add: less_mult_imp_div_less)
  have b1: "unat (of_nat (224 + n div 4096) :: byte) = 224 + n div 4096"
    using d by (intro unat_of_nat_byte) simp
  have b2: "unat (of_nat (128 + n div 64 mod 64) :: byte) = 128 + n div 64 mod 64"
    using mod64_le [of "n div 64"] by (intro unat_of_nat_byte) simp
  have b3: "unat (of_nat (128 + n mod 64) :: byte) = 128 + n mod 64"
    by (intro unat_of_nat_byte) simp
  have lo: "n div 4096 = 0 \<Longrightarrow> 32 \<le> n div 64 mod 64"
  proof -
    assume "n div 4096 = 0"
    then have "n < 4096" by (simp add: div_eq_0_iff)
    then have "n div 64 < 64" by (simp add: less_mult_imp_div_less)
    moreover have "32 \<le> n div 64" using assms(1) by (simp add: le_div_geq)
    ultimately show ?thesis by simp
  qed
  have hi: "n div 4096 = 13 \<Longrightarrow> n div 64 mod 64 < 32"
  proof -
    assume a: "n div 4096 = 13"
    have "n = n div 4096 * 4096 + n mod 4096" by simp
    with a have n: "n = 53248 + n mod 4096" by simp
    with assms(3) have "n mod 4096 < 2048" by linarith
    then have "n mod 4096 div 64 < 32" by (simp add: less_mult_imp_div_less)
    moreover have "n div 64 mod 64 = n mod 4096 div 64"
    proof -
      have "n mod (64 * 64) = 64 * (n div 64 mod 64) + n mod 64"
        by (rule mod_mult2_eq)
      then show ?thesis by simp
    qed
    ultimately show ?thesis by simp
  qed
  have ok: "second_ok (224 + n div 4096) (of_nat (128 + n div 64 mod 64))"
    unfolding second_ok_def b2 using lo hi d mod64_le [of "n div 64"] by auto
  have "utf8_decode (utf8_3 n @ bs)
        = code_units ((n div 4096 * 64 + n div 64 mod 64) * 64 + n mod 64) @ utf8_decode bs"
    unfolding utf8_3_def
    using d ok by (simp add: b1 b2 b3 is_cont_def mod64_le del: of_nat_add)
  also have "code_units ((n div 4096 * 64 + n div 64 mod 64) * 64 + n mod 64) = [of_nat n]"
    using assms(2) by (simp only: split4096 code_units_def if_True)
  finally show ?thesis by simp
qed

lemma split262144:
  fixes n :: nat
  shows "((n div 262144 * 64 + n div 4096 mod 64) * 64 + n div 64 mod 64) * 64 + n mod 64 = n"
proof -
  have "n div 262144 = n div 4096 div 64" by (simp add: div_mult2_eq)
  then have "n div 262144 * 64 + n div 4096 mod 64 = n div 4096" by simp
  then show ?thesis by (simp only: split4096)
qed

lemma utf8_decode_4:
  assumes "65536 \<le> n" "n < 1114112"
  shows "utf8_decode (utf8_4 n @ bs) = code_units n @ utf8_decode bs"
proof -
  have d: "n div 262144 < 5"
    using assms by (simp add: less_mult_imp_div_less)
  have b1: "unat (of_nat (240 + n div 262144) :: byte) = 240 + n div 262144"
    using d by (intro unat_of_nat_byte) simp
  have b2: "unat (of_nat (128 + n div 4096 mod 64) :: byte) = 128 + n div 4096 mod 64"
    using mod64_le [of "n div 4096"] by (intro unat_of_nat_byte) simp
  have b3: "unat (of_nat (128 + n div 64 mod 64) :: byte) = 128 + n div 64 mod 64"
    using mod64_le [of "n div 64"] by (intro unat_of_nat_byte) simp
  have b4: "unat (of_nat (128 + n mod 64) :: byte) = 128 + n mod 64"
    by (intro unat_of_nat_byte) simp
  have lo: "n div 262144 = 0 \<Longrightarrow> 16 \<le> n div 4096 mod 64"
  proof -
    assume "n div 262144 = 0"
    then have "n < 262144" by (simp add: div_eq_0_iff)
    then have "n div 4096 < 64" by (simp add: less_mult_imp_div_less)
    moreover have "16 \<le> n div 4096" using assms(1) by (simp add: le_div_geq)
    ultimately show ?thesis by simp
  qed
  have hi: "n div 262144 = 4 \<Longrightarrow> n div 4096 mod 64 < 16"
  proof -
    assume a: "n div 262144 = 4"
    have "n = n div 262144 * 262144 + n mod 262144" by simp
    with a have n: "n = 1048576 + n mod 262144" by simp
    with assms(2) have "n mod 262144 < 65536" by linarith
    then have "n mod 262144 div 4096 < 16" by (simp add: less_mult_imp_div_less)
    moreover have "n div 4096 mod 64 = n mod 262144 div 4096"
    proof -
      have "n mod (4096 * 64) = 4096 * (n div 4096 mod 64) + n mod 4096"
        by (rule mod_mult2_eq)
      then show ?thesis by simp
    qed
    ultimately show ?thesis by simp
  qed
  have ok: "second_ok (240 + n div 262144) (of_nat (128 + n div 4096 mod 64))"
    unfolding second_ok_def b2 using lo hi d mod64_le [of "n div 4096"] by auto
  have "utf8_decode (utf8_4 n @ bs)
        = code_units (((n div 262144 * 64 + n div 4096 mod 64) * 64 + n div 64 mod 64) * 64
                      + n mod 64) @ utf8_decode bs"
    unfolding utf8_4_def
    using d ok by (simp add: b1 b2 b3 b4 is_cont_def mod64_le del: of_nat_add)
  then show ?thesis
    by (simp only: split262144)
qed

lemma pair_code_point_bounds:
  assumes "is_high h" "is_low l"
  shows "65536 \<le> pair_code_point h l" and "pair_code_point h l < 1114112"
  using assms unfolding is_high_def is_low_def pair_code_point_def by linarith+

lemma code_units_pair:
  assumes "is_high h" "is_low l"
  shows "code_units (pair_code_point h l) = [h, l]"
proof -
  define a where "a = unat h - 55296"
  define b where "b = unat l - 56320"
  have ab: "b < 1024" "unat h = 55296 + a" "unat l = 56320 + b"
    using assms unfolding a_def b_def is_high_def is_low_def by linarith+
  have cp: "pair_code_point h l = 65536 + (a * 1024 + b)"
    unfolding pair_code_point_def a_def b_def by simp
  have "code_units (pair_code_point h l) = [of_nat (55296 + a), of_nat (56320 + b)]"
    unfolding cp code_units_def using ab(1) by (simp add: div_mod_small del: of_nat_add)
  also have "\<dots> = [of_nat (unat h), of_nat (unat l)]"
    by (simp only: ab)
  finally show ?thesis by simp
qed

lemma utf8_round_trip: "well_formed s \<Longrightarrow> utf8_decode (utf8_encode s) = s"
proof (induction s rule: utf8_encode.induct)
  case 1
  show ?case by simp
next
  case (2 u)
  then have ns: "\<not> (55296 \<le> unat u \<and> unat u < 57344)"
    by (auto simp: is_high_def is_low_def)
  consider "unat u < 128" | "128 \<le> unat u" "unat u < 2048" | "2048 \<le> unat u"
    by linarith
  then show ?case
  proof cases
    case 1
    then show ?thesis using utf8_decode_1 [of "unat u" "[]"] by simp
  next
    case 2
    then show ?thesis using utf8_decode_2 [of "unat u" "[]"] by simp
  next
    case 3
    then show ?thesis
      using utf8_decode_3 [of "unat u" "[]"] ns unat_jschar_less [of u] "2.prems"
      by simp
  qed
next
  case (3 u l r)
  consider "unat u < 128" | "128 \<le> unat u" "unat u < 2048"
    | "2048 \<le> unat u" "is_high u" | "2048 \<le> unat u" "\<not> is_high u"
    by linarith
  then show ?case
  proof cases
    case 1
    then have "\<not> is_high u" "\<not> is_low u" by (simp_all add: is_high_def is_low_def)
    with 1 3 show ?thesis using utf8_decode_1 [of "unat u" "utf8_encode (l # r)"] by simp
  next
    case 2
    then have "\<not> is_high u" "\<not> is_low u" by (simp_all add: is_high_def is_low_def)
    with 2 3 show ?thesis using utf8_decode_2 [of "unat u" "utf8_encode (l # r)"] by simp
  next
    case 3
    with "3.prems" have l: "is_low l" and r: "well_formed r" by simp_all
    from 3 l r "3.IH"(3) have ih: "utf8_decode (utf8_encode r) = r" by simp
    from 3 l have "utf8_encode (u # l # r) = utf8_4 (pair_code_point u l) @ utf8_encode r"
      by simp
    then show ?thesis
      using utf8_decode_4 [OF pair_code_point_bounds [OF 3(2) l], of "utf8_encode r"]
        code_units_pair [OF 3(2) l] ih
      by simp
  next
    case 4
    with "3.prems" have nl: "\<not> is_low u" and w: "well_formed (l # r)" by simp_all
    from 4 nl have ns: "\<not> (55296 \<le> unat u \<and> unat u < 57344)"
      by (auto simp: is_high_def is_low_def)
    from 4 nl w "3.IH"(5) have ih: "utf8_decode (utf8_encode (l # r)) = l # r" by simp
    from 4 nl have "utf8_encode (u # l # r) = utf8_3 (unat u) @ utf8_encode (l # r)"
      by simp
    then show ?thesis
      using utf8_decode_3 [OF 4(1) unat_jschar_less [of u] ns, of "utf8_encode (l # r)"] ih
      by simp
  qed
qed

subsection \<open>String literals\<close>

lemma split_hex4:
  fixes n :: nat
  shows "((n div 4096 * 16 + n div 256 mod 16) * 16 + n div 16 mod 16) * 16 + n mod 16 = n"
proof -
  have "n div 4096 = n div 256 div 16" by (simp add: div_mult2_eq)
  then have a: "n div 4096 * 16 + n div 256 mod 16 = n div 256" by simp
  have "n div 256 = n div 16 div 16" by (simp add: div_mult2_eq)
  then have b: "n div 256 * 16 + n div 16 mod 16 = n div 16" by simp
  show ?thesis by (simp only: a b) simp
qed

lemma hex4_value_hexdigits:
  assumes "x < 16" "y < 16" "z < 16" "w < 16"
  shows "hex4_value (hexdigit x) (hexdigit y) (hexdigit z) (hexdigit w)
         = Some (of_nat (((x * 16 + y) * 16 + z) * 16 + w))"
  using assms by (simp add: hex4_value_def hexval_hexdigit del: of_nat_add of_nat_mult)

lemma hex4_value_hex4:
  assumes "n < 65536"
  shows "hex4 n = [a, b, c, d] \<Longrightarrow> hex4_value a b c d = Some (of_nat n)"
proof -
  assume h: "hex4 n = [a, b, c, d]"
  have "n div 4096 < 16" using assms by (simp add: less_mult_imp_div_less)
  then have "hex4_value (hexdigit (n div 4096)) (hexdigit (n div 256 mod 16))
      (hexdigit (n div 16 mod 16)) (hexdigit (n mod 16)) = Some (of_nat n)"
    by (simp only: split_hex4 hex4_value_hexdigits mod_less_divisor zero_less_numeral)
  with h show ?thesis unfolding hex4_def by simp
qed

lemma parse_chars_unicode_escape:
  "parse_chars ([92, 117] @ hex4 (unat u) @ cs) = cons_result u (parse_chars cs)"
proof -
  obtain a b c d where h: "hex4 (unat u) = [a, b, c, d]"
    by (simp add: hex4_def)
  from hex4_value_hex4 [OF unat_jschar_less h]
  have "hex4_value a b c d = Some u" by simp
  then show ?thesis by (simp add: h)
qed

lemma parse_chars_escape_unit:
  "parse_chars (escape_unit u @ cs) = cons_result u (parse_chars cs)"
proof -
  consider "u = 34" | "u = 92" | "u = 8" | "u = 12" | "u = 10" | "u = 13" | "u = 9"
    | "u \<notin> {34, 92, 8, 12, 10, 13, 9}" "unat u < 32 \<or> is_high u \<or> is_low u"
    | "u \<notin> {34, 92, 8, 12, 10, 13, 9}" "\<not> (unat u < 32 \<or> is_high u \<or> is_low u)"
    by blast
  then show ?thesis
  proof cases
    case 8
    then have "escape_unit u = [92, 117] @ hex4 (unat u)"
      by (simp add: escape_unit_def)
    then show ?thesis by (simp only: parse_chars_unicode_escape append_assoc)
  next
    case 9
    then show ?thesis by (simp add: escape_unit_def)
  qed (simp_all add: escape_unit_def unescape_def)
qed

lemma parse_chars_literal:
  assumes "u \<noteq> 34" "u \<noteq> 92" "32 \<le> unat u"
  shows "parse_chars (u # cs) = cons_result u (parse_chars cs)"
  using assms by simp

lemma surrogate_literal:
  assumes "is_high u \<or> is_low u"
  shows "u \<noteq> 34" "u \<noteq> 92" "32 \<le> unat u"
  using assms by (auto simp: is_high_def is_low_def)

lemma parse_chars_json_escape:
  "parse_chars (json_escape s @ 34 # rest) = Some (s, rest)"
proof (induction s rule: json_escape.induct)
  case 1
  show ?case by simp
next
  case (2 u)
  show ?case
    by (simp add: parse_chars_escape_unit cons_result_def del: parse_chars.simps)
       simp
next
  case (3 u l r)
  show ?case
  proof (cases "is_high u \<and> is_low l")
    case True
    then have u: "u \<noteq> 34" "u \<noteq> 92" "32 \<le> unat u"
      and l: "l \<noteq> 34" "l \<noteq> 92" "32 \<le> unat l"
      using surrogate_literal [of u] surrogate_literal [of l] by auto
    have "parse_chars (u # l # json_escape r @ 34 # rest)
        = cons_result u (cons_result l (parse_chars (json_escape r @ 34 # rest)))"
      by (simp only: parse_chars_literal [OF u] parse_chars_literal [OF l])
    moreover from True "3.IH"(1)
    have "parse_chars (json_escape r @ 34 # rest) = Some (r, rest)" by simp
    ultimately show ?thesis
      using True by (simp add: cons_result_def del: parse_chars.simps)
  next
    case False
    with "3.IH"(2)
    have ih: "parse_chars (json_escape (l # r) @ 34 # rest) = Some (l # r, rest)" by simp
    have e: "json_escape (u # l # r) = escape_unit u @ json_escape (l # r)"
      using False by auto
    show ?thesis
      unfolding e
      by (simp add: parse_chars_escape_unit ih cons_result_def
          del: json_escape.simps parse_chars.simps)
  qed
qed

subsection \<open>Well-formed text\<close>


lemma well_formed_plain_Cons: "no_surrogate u \<Longrightarrow> well_formed (u # s) = well_formed s"
  by (cases s) (simp_all add: no_surrogate_def)

lemma well_formed_append:
  "well_formed a \<Longrightarrow> well_formed b \<Longrightarrow> well_formed (a @ b)"
proof (induction a rule: well_formed.induct)
  case 1
  then show ?case by simp
next
  case (2 u)
  then show ?case by (simp add: well_formed_plain_Cons no_surrogate_def)
next
  case (3 u l r)
  then show ?case by (cases "is_high u") simp_all
qed

lemma well_formed_all_plain: "list_all no_surrogate s \<Longrightarrow> well_formed s"
  by (induction s) (simp_all add: well_formed_plain_Cons)

lemma plain_small: "unat u < 55296 \<Longrightarrow> no_surrogate u"
  by (simp add: no_surrogate_def is_high_def is_low_def)

lemma list_all_plain_js: "list_all no_surrogate (js s)"
proof -
  have "no_surrogate (of_nat (of_char c))" for c :: char
  proof -
    have "of_char c < (256 :: nat)"
      by (rule nat_of_char_less_256)
    then have "unat (of_nat (of_char c) :: jschar) = of_char c"
      by (intro unat_of_nat_jschar) linarith
    moreover have "of_char c < (55296 :: nat)"
      using \<open>of_char c < (256 :: nat)\<close> by linarith
    ultimately show ?thesis
      by (intro plain_small) simp
  qed
  then show ?thesis by (simp add: js_def list_all_iff)
qed

lemma well_formed_js: "well_formed (js s)"
  by (rule well_formed_all_plain [OF list_all_plain_js])

lemma list_all_plain_hex4: "n < 65536 \<Longrightarrow> list_all no_surrogate (hex4 n)"
proof -
  assume "n < 65536"
  then have "n div 4096 < 16" by (simp add: less_mult_imp_div_less)
  moreover have "k < 16 \<Longrightarrow> no_surrogate (hexdigit k)" for k
    by (rule plain_small) (simp add: unat_hexdigit)
  ultimately show ?thesis by (simp add: hex4_def)
qed

lemma list_all_plain_escape_unit:
  "(is_high u \<or> is_low u \<or> no_surrogate u) \<Longrightarrow> list_all no_surrogate (escape_unit u)"
proof -
  have p: "no_surrogate 92" "no_surrogate 34" "no_surrogate 98" "no_surrogate 102" "no_surrogate 110" "no_surrogate 114" "no_surrogate 116"
    "no_surrogate 117"
    by (simp_all add: no_surrogate_def is_high_def is_low_def)
  have h: "list_all no_surrogate (hex4 (unat u))"
    by (rule list_all_plain_hex4 [OF unat_jschar_less])
  show ?thesis
    unfolding escape_unit_def using p h by (auto simp: no_surrogate_def)
qed

lemma well_formed_json_escape: "well_formed (json_escape s)"
proof (induction s rule: json_escape.induct)
  case 1
  show ?case by simp
next
  case (2 u)
  have "list_all no_surrogate (escape_unit u)"
    by (rule list_all_plain_escape_unit) (auto simp: no_surrogate_def)
  then show ?case
    by (simp add: well_formed_all_plain)
next
  case (3 u l r)
  show ?case
  proof (cases "is_high u \<and> is_low l")
    case True
    with "3.IH"(1) show ?thesis by simp
  next
    case False
    with "3.IH"(2) have ih: "well_formed (json_escape (l # r))" by simp
    have e: "json_escape (u # l # r) = escape_unit u @ json_escape (l # r)"
      using False by auto
    show ?thesis
      unfolding e
      by (intro well_formed_append well_formed_all_plain list_all_plain_escape_unit ih)
         (auto simp: no_surrogate_def)
  qed
qed

lemma well_formed_json_quote: "well_formed (json_quote s)"
  unfolding json_quote_def
  by (intro well_formed_append well_formed_json_escape)
     (simp_all add: is_high_def is_low_def)

subsection \<open>Decimal numbers\<close>

lemma unat_digit: "k < 10 \<Longrightarrow> unat (of_nat (48 + k) :: jschar) = 48 + k"
  by (intro unat_of_nat_jschar) simp

lemma is_digit_of_nat: "k < 10 \<Longrightarrow> is_digit (of_nat (48 + k))"
  by (simp add: is_digit_def unat_digit del: of_nat_add)

lemma dec_digits: "list_all is_digit (dec n)"
proof (induction n rule: dec.induct)
  case (1 n)
  show ?case
  proof (cases "n < 10")
    case True
    then show ?thesis by (subst dec.simps) (simp add: is_digit_of_nat del: of_nat_add)
  next
    case False
    with 1 show ?thesis
      by (subst dec.simps) (simp add: is_digit_of_nat del: of_nat_add)
  qed
qed

lemma dec_not_Nil: "dec n \<noteq> []"
  by (subst dec.simps) simp

lemma digits_value_snoc: "digits_value (ds @ [c]) = digits_value ds * 10 + (unat c - 48)"
  by (simp add: digits_value_def)

lemma digits_value_dec: "digits_value (dec n) = n"
proof (induction n rule: dec.induct)
  case (1 n)
  show ?case
  proof (cases "n < 10")
    case True
    then show ?thesis
      by (subst dec.simps) (simp add: digits_value_def unat_digit del: of_nat_add)
  next
    case False
    with 1 show ?thesis
      by (subst dec.simps) (simp add: digits_value_snoc unat_digit del: of_nat_add)
  qed
qed

lemma hd_dec: "1 < length (dec n) \<Longrightarrow> hd (dec n) \<noteq> 48"
proof (induction n rule: dec.induct)
  case (1 n)
  show ?case
  proof (cases "n < 10")
    case True
    with "1.prems" show ?thesis by (subst (asm) dec.simps) simp
  next
    case False
    then have e: "dec n = dec (n div 10) @ [of_nat (48 + n mod 10)]"
      by (subst dec.simps) simp
    show ?thesis
    proof (cases "n div 10 < 10")
      case True
      from False have "0 < n div 10" by (simp add: div_greater_zero_iff)
      then have "unat (of_nat (48 + n div 10) :: jschar) \<noteq> 48"
        using True by (simp add: unat_digit del: of_nat_add)
      then have "(of_nat (48 + n div 10) :: jschar) \<noteq> 48" by auto
      moreover have "dec (n div 10) = [of_nat (48 + n div 10)]"
        using True by (subst dec.simps) simp
      ultimately show ?thesis unfolding e by (simp del: of_nat_add)
    next
      case f: False
      then have "dec (n div 10) = dec (n div 10 div 10) @ [of_nat (48 + n div 10 mod 10)]"
        by (subst dec.simps) simp
      then have "1 < length (dec (n div 10))"
        using dec_not_Nil [of "n div 10 div 10"] by (cases "dec (n div 10 div 10)") simp_all
      with "1.IH" False have "hd (dec (n div 10)) \<noteq> 48" by simp
      then show ?thesis unfolding e using dec_not_Nil [of "n div 10"] by simp
    qed
  qed
qed

lemma take_digits_append:
  assumes "list_all is_digit ds" and "\<not> is_digit c"
  shows "take_digits (ds @ c # r) = (ds, c # r)"
  using assms by (induction ds) simp_all

lemma parse_number_dec:
  assumes "c = 44 \<or> c = 125"
  shows "parse_number (dec n @ c # r) = Some (JNum (int n), c # r)"
proof -
  obtain d ds where d: "dec n = d # ds"
    using dec_not_Nil [of n] by (cases "dec n") auto
  with dec_digits [of n] have "is_digit d" by simp
  then have nm: "d \<noteq> 45" by (auto simp: is_digit_def)
  have nd: "\<not> is_digit c" using assms by (auto simp: is_digit_def)
  have t: "take_digits (dec n @ c # r) = (dec n, c # r)"
    by (rule take_digits_append [OF dec_digits nd])
  have neg: "(case dec n @ c # r of [] \<Rightarrow> False | x # y \<Rightarrow> x = 45) = False"
    using nm by (simp add: d)
  have z: "\<not> (1 < length (dec n) \<and> hd (dec n) = 48)"
    using hd_dec [of n] by blast
  have f: "parse_fraction (c # r) = Some ([], c # r)"
    using assms by (auto simp: parse_fraction_def)
  have e: "parse_exponent (c # r) = Some ([], c # r)"
    using assms by (auto simp: parse_exponent_def)
  show ?thesis
    unfolding parse_number_def neg Let_def
    using z by (simp add: t f e dec_not_Nil digits_value_dec)
qed

lemma list_all_plain_dec: "list_all no_surrogate (dec n)"
proof -
  have "is_digit c \<Longrightarrow> no_surrogate c" for c
    by (rule plain_small) (simp add: is_digit_def)
  with dec_digits [of n] show ?thesis
    by (simp add: list_all_iff)
qed

lemma well_formed_dec: "well_formed (dec n)"
  by (rule well_formed_all_plain [OF list_all_plain_dec])

subsection \<open>Values\<close>

lemma parse_value_string:
  "parse_value (Suc k) (34 # json_escape s @ 34 # rest) = Some (JString s, rest)"
  by (simp add: parse_chars_json_escape)

lemma parse_value_number:
  assumes "c = 44 \<or> c = 125"
  shows "parse_value (Suc k) (dec n @ c # r) = Some (JNum (int n), c # r)"
proof -
  obtain d ds where d: "dec n = d # ds"
    using dec_not_Nil [of n] by (cases "dec n") auto
  with dec_digits [of n] have "is_digit d" by simp
  then have nm: "d \<notin> {32, 9, 10, 13, 123, 91, 34, 110, 116, 102}"
    by (auto simp: is_digit_def)
  have "parse_value (Suc k) (d # ds @ c # r) = parse_number (d # ds @ c # r)"
    using nm by (simp add: js_def)
  then show ?thesis
    using parse_number_dec [OF assms, of n r] by (simp add: d)
qed

subsection \<open>The JSON texts of this program\<close>

lemma fuel9:
  assumes "9 \<le> n"
  obtains k where "n = Suc (Suc (Suc (Suc (Suc (Suc (Suc (Suc (Suc k))))))))"
proof
  show "n = Suc (Suc (Suc (Suc (Suc (Suc (Suc (Suc (Suc (n - 9)))))))))"
    using assms by linarith
qed

lemmas parse_value_Cons = parse_value.simps(2) [of n "c # r" for n c r]

lemmas literal_eval = js_def json_quote_def escape_unit_def is_high_def is_low_def
  is_index_def is_digit_def mk_object_def cons_result_def

lemma JSON_parse_package:
  "JSON_parse (JSON_stringify (JObject
      [(js ''key'', JString a), (js ''iv'', JString b),
       (js ''authTag'', JString c), (js ''encrypted'', JString d)]))
   = Some (JObject
      [(js ''key'', JString a), (js ''iv'', JString b),
       (js ''authTag'', JString c), (js ''encrypted'', JString d)])"
proof -
  define T where "T = JSON_stringify (JObject
      [(js ''key'', JString a), (js ''iv'', JString b),
       (js ''authTag'', JString c), (js ''encrypted'', JString d)])"
  have "9 \<le> 2 * length T + 2"
    by (simp add: T_def json_quote_def js_def)
  then obtain k where k: "2 * length T + 2 = Suc (Suc (Suc (Suc (Suc (Suc (Suc (Suc (Suc k))))))))"
    by (rule fuel9)
  have "parse_value (Suc (Suc (Suc (Suc (Suc (Suc (Suc (Suc (Suc k))))))))) T
        = Some (JObject
      [(js ''key'', JString a), (js ''iv'', JString b),
       (js ''authTag'', JString c), (js ''encrypted'', JString d)], [])"
    unfolding T_def
    by (simp add: literal_eval parse_value_Cons parse_chars_json_escape
        del: parse_value.simps)
  then show ?thesis
    unfolding JSON_parse_def T_def [symmetric] k by simp
qed

lemma JSON_parse_combined:
  "JSON_parse (JSON_stringify (JObject
      [(js ''content'', JString a), (js ''privateKey'', JString b),
       (js ''fingerprint'', JString c), (js ''timestamp'', JNum (int t))]))
   = Some (JObject
      [(js ''content'', JString a), (js ''privateKey'', JString b),
       (js ''fingerprint'', JString c), (js ''timestamp'', JNum (int t))])"
proof -
  define T where "T = JSON_stringify (JObject
      [(js ''content'', JString a), (js ''privateKey'', JString b),
       (js ''fingerprint'', JString c), (js ''timestamp'', JNum (int t))])"
  have "9 \<le> 2 * length T + 2"
    by (simp add: T_def json_quote_def js_def)
  then obtain k where k: "2 * length T + 2 = Suc (Suc (Suc (Suc (Suc (Suc (Suc (Suc (Suc k))))))))"
    by (rule fuel9)
  have "parse_value (Suc (Suc (Suc (Suc (Suc (Suc (Suc (Suc (Suc k))))))))) T
        = Some (JObject
      [(js ''content'', JString a), (js ''privateKey'', JString b),
       (js ''fingerprint'', JString c), (js ''timestamp'', JNum (int t))], [])"
    unfolding T_def
    by (simp add: literal_eval parse_value_Cons parse_chars_json_escape parse_value_number
        number_text_def del: parse_value.simps)
  then show ?thesis
    unfolding JSON_parse_def T_def [symmetric] k by simp
qed

lemma JSON_parse_certificate:
  "JSON_parse (JSON_stringify (JObject
      [(js ''data'', JObject
          [(js ''promiseId'', JString p), (js ''publicKey'', JString k),
           (js ''creatorFingerprint'', JString f), (js ''issuedAt'', JNum (int t)),
           (js ''issuer'', JString i)]),
       (js ''signature'', JString s)]))
   = Some (JObject
      [(js ''data'', JObject
          [(js ''promiseId'', JString p), (js ''publicKey'', JString k),
           (js ''creatorFingerprint'', JString f), (js ''issuedAt'', JNum (int t)),
           (js ''issuer'', JString i)]),
       (js ''signature'', JString s)])"
proof -
  define T where "T = JSON_stringify (JObject
      [(js ''data'', JObject
          [(js ''promiseId'', JString p), (js ''publicKey'', JString k),
           (js ''creatorFingerprint'', JString f), (js ''issuedAt'', JNum (int t)),
           (js ''issuer'', JString i)]),
       (js ''signature'', JString s)])"
  have "9 \<le> 2 * length T + 2"
    by (simp add: T_def json_quote_def js_def)
  then obtain n where n: "2 * length T + 2 = Suc (Suc (Suc (Suc (Suc (Suc (Suc (Suc (Suc n))))))))"
    by (rule fuel9)
  have "parse_value (Suc (Suc (Suc (Suc (Suc (Suc (Suc (Suc (Suc n))))))))) T
        = Some (JObject
      [(js ''data'', JObject
          [(js ''promiseId'', JString p), (js ''publicKey'', JString k),
           (js ''creatorFingerprint'', JString f), (js ''issuedAt'', JNum (int t)),
           (js ''issuer'', JString i)]),
       (js ''signature'', JString s)], [])"
    unfolding T_def
    by (simp add: literal_eval parse_value_Cons parse_chars_json_escape parse_value_number
        number_text_def del: parse_value.simps)
  then show ?thesis
    unfolding JSON_parse_def T_def [symmetric] n by simp
qed

lemma well_formed_number_text: "well_formed (number_text (int t))"
  by (simp add: number_text_def well_formed_dec)

lemma well_formed_append_iff:
  "well_formed a \<Longrightarrow> well_formed (a @ b) = well_formed b"
proof (induction a rule: well_formed.induct)
  case 1
  then show ?case by simp
next
  case (2 u)
  then show ?case by (simp add: well_formed_plain_Cons no_surrogate_def)
next
  case (3 u l r)
  then show ?case by (cases "is_high u") simp_all
qed

lemmas well_formed_intros = well_formed_append_iff well_formed_plain_Cons no_surrogate_def
  well_formed_json_quote well_formed_js well_formed_number_text

lemma well_formed_package:
  "well_formed (JSON_stringify (JObject
      [(js ''key'', JString a), (js ''iv'', JString b),
       (js ''authTag'', JString c), (js ''encrypted'', JString d)]))"
  by (simp add: is_high_def is_low_def well_formed_intros)

lemma well_formed_combined:
  "well_formed (JSON_stringify (JObject
      [(js ''content'', JString a), (js ''privateKey'', JString b),
       (js ''fingerprint'', JString c), (js ''timestamp'', JNum (int t))]))"
  by (simp add: is_high_def is_low_def well_formed_intros)

lemma well_formed_certificate_data:
  "well_formed (JSON_stringify (JObject
          [(js ''promiseId'', JString p), (js ''publicKey'', JString k),
           (js ''creatorFingerprint'', JString f), (js ''issuedAt'', JNum (int t)),
           (js ''issuer'', JString i)]))"
  by (simp add: is_high_def is_low_def well_formed_intros)

lemma well_formed_certificate:
  "well_formed (JSON_stringify (JObject
      [(js ''data'', JObject
          [(js ''promiseId'', JString p), (js ''publicKey'', JString k),
           (js ''creatorFingerprint'', JString f), (js ''issuedAt'', JNum (int t)),
           (js ''issuer'', JString i)]),
       (js ''signature'', JString s)]))"
  by (simp add: is_high_def is_low_def well_formed_intros)

section \<open>The structure of a verification result\<close>

lemma body_Inr_D:
  assumes "verifySignedPromise_body K sp = Inr (r, cdv)"
  shows "\<exists>cr sg j cd.
    creator sp = Some cr \<and> signature sp = Some sg \<and> clientDataJSON sg = Some j \<and>
    JSON_parse (utf8_decode (fromBase64 j)) = Some cd \<and>
    isClientDataValid cd sp = Inr cdv \<and>
    isChallengeValid r = (challenge sp = Some (generateSigningChallenge (snapshot_of sp cr))) \<and>
    isSignatureValid r = verifyWebAuthnSignature K sg (publicKey sp) (challenge sp) \<and>
    isDataIntact r \<and>
    isValid r = (isChallengeValid r \<and> cdv \<and> isSignatureValid r \<and> isDataIntact r) \<and>
    result_creator r = username cr \<and>
    errorDetails r = (if isValid r then None
       else Some (Inl (js ''Challenge: '' @ bool_text (isChallengeValid r)
                       @ js '', ClientData: '' @ bool_text cdv
                       @ js '', Signature: '' @ bool_text (isSignatureValid r))))"
  using assms unfolding verifySignedPromise_body_def base64url_argument_def
  by (auto simp: Let_def split: option.splits sum.splits)


lemma isClientDataValid_True_iff:
  "isClientDataValid cd sp = Inr True \<longleftrightarrow>
     get_prop cd (js ''type'') = Inr (Some (JString (js ''webauthn.get''))) \<and>
     get_prop cd (js ''challenge'') = Inr (map_option JString (challenge sp)) \<and>
     (\<exists>origin. get_prop cd (js ''origin'') = Inr origin \<and>
               origin_includes origin (rpId sp) = Inr True)"
  unfolding isClientDataValid_def
  by (auto split: sum.splits)

lemma body_Inl_result:
  assumes "verifySignedPromise_body K sp = Inl e"
  shows "verifySignedPromise K sp =
     \<lparr>isValid = False, isSignatureValid = False, isChallengeValid = False,
      isDataIntact = False, result_creator = Some (username_or_unknown sp),
      errorDetails = Some (Inr e)\<rparr>"
  using assms by (simp add: verifySignedPromise_def)

lemma body_Inr_result:
  assumes "verifySignedPromise_body K sp = Inr (r, cdv)"
  shows "verifySignedPromise K sp = r"
  using assms by (simp add: verifySignedPromise_def)


lemma body_bad_client_data:
  "verifySignedPromise_body K artifact_bad_client_data = Inl SyntaxError"
  unfolding verifySignedPromise_body_def
  by (simp add: artifact_bad_client_data_def assertion_bad_client_data_def artifact_friday_def
      assertion_friday_def base64url_argument_def client_data_bad Let_def)



lemma isChallengeValid_iff:
  "isChallengeValid (verifySignedPromise K sp) \<longleftrightarrow>
     (\<exists>r cdv. verifySignedPromise_body K sp = Inr (r, cdv)) \<and>
     (\<exists>cr. creator sp = Some cr \<and>
           challenge sp = Some (generateSigningChallenge (snapshot_of sp cr)))"
proof (cases "verifySignedPromise_body K sp")
  case (Inl e)
  then show ?thesis by (simp add: body_Inl_result)
next
  case (Inr p)
  obtain r cdv where p: "p = (r, cdv)" by (cases p)
  from Inr p have r: "verifySignedPromise K sp = r" by (simp add: body_Inr_result)
  from body_Inr_D [OF Inr [unfolded p]] show ?thesis
    unfolding r using Inr p by auto
qed

lemma createSignedPromiseFile_friday:
  "\<exists>e. createSignedPromiseFile G rnd now env record_friday sd pk ch =
     Inr \<lparr>promise_id = Some (js ''p1''),
          title = Some (js ''Deliver report''),
          content = Some (js ''I will deliver by Friday''),
          deliveryDate = Some (js ''2025-01-10''),
          createdAt = Some (js ''2025-01-01T09:00:00.000Z''),
          creator = Some creator_alice,
          encryptedContent = Some e,
          signature = Some sd,
          publicKey = Some pk,
          challenge = Some ch,
          rpId = Some (case env of None \<Rightarrow> js ''localhost''
                       | Some d \<Rightarrow> if d = [] then js ''localhost'' else d)\<rparr>"
  by (simp add: createSignedPromiseFile_def encryptPromiseContent_def record_friday_def
      gcm_encrypt_def randomBytes_def length_sha256 Let_def)

lemma tampered_snapshot:
  assumes "promise_id a = Some (js ''p1'')" "title a = Some (js ''Deliver report'')"
    "deliveryDate a = Some (js ''2025-01-10'')"
  shows "snapshot_of (a\<lparr>content := Some (js ''I will deliver by Monday'')\<rparr>) creator_alice
           = snapshot_monday"
  using assms
  by (simp add: snapshot_of_def snapshot_monday_def snapshot_friday_def creator_alice_def)

lemma challenges_differ:
  "generateSigningChallenge snapshot_friday \<noteq> generateSigningChallenge snapshot_monday"
  unfolding friday_challenge monday_challenge by (simp add: js_def)

section \<open>Certificates and envelopes\<close>

lemma decode_certificate_text:
  "JSON_parse (utf8_decode (fromBase64
      (certificate_text (certificateData now p k f) sg)))
   = Some (JObject [(js ''data'', certificateData now p k f), (js ''signature'', JString sg)])"
  unfolding certificate_text_def certificateData_def
  by (simp only: fromBase64_toBase64 utf8_round_trip [OF well_formed_certificate]
      JSON_parse_certificate)

lemma generateCertificate_eq:
  "generateCertificate now p k f =
     certificate_text (certificateData now p k f)
       (toHex (authority_hmac (certificateData now p k f)))"
  by (simp add: generateCertificate_def certificate_text_def certificateData_def
      authority_hmac_def Let_def)



lemma xor_twice: "(a XOR k) XOR k = (a :: byte)"
  by (simp add: xor.assoc)

lemma length_ctr_xor: "length (ctr_xor ks m) = length m"
  by (simp add: ctr_xor_def)

lemma nth_ctr_xor: "i < length m \<Longrightarrow> ctr_xor ks m ! i = (m ! i) XOR ks i"
  by (simp add: ctr_xor_def)

lemma ctr_xor_involution: "ctr_xor ks (ctr_xor ks m) = m"
proof (rule nth_equalityI)
  show "length (ctr_xor ks (ctr_xor ks m)) = length m"
    by (simp only: length_ctr_xor)
next
  fix i
  assume "i < length (ctr_xor ks (ctr_xor ks m))"
  then have i: "i < length m" by (simp only: length_ctr_xor)
  then have "ctr_xor ks (ctr_xor ks m) ! i = ((m ! i) XOR ks i) XOR ks i"
    by (simp only: nth_ctr_xor length_ctr_xor)
  then show "ctr_xor ks (ctr_xor ks m) ! i = m ! i"
    by (simp only: xor_twice)
qed

lemma length_gcm_tag: "length (gcm_tag G key iv aad ct) = 16"
  by (simp add: gcm_tag_def)

lemma gcm_round_trip:
  assumes "length key = 32" and "iv \<noteq> []"
  shows "gcm_encrypt G key iv aad pt =
           Inr (ctr_xor (keystream G key iv) pt,
                gcm_tag G key iv aad (ctr_xor (keystream G key iv) pt))"
    and "gcm_decrypt G key iv aad
           (gcm_tag G key iv aad (ctr_xor (keystream G key iv) pt))
           (ctr_xor (keystream G key iv) pt) = Inr pt"
  using assms
  by (simp_all add: gcm_encrypt_def gcm_decrypt_def Let_def length_gcm_tag ctr_xor_involution)

lemma seal_lengths: "length (seal_key rnd) = 32" "length (seal_iv rnd) = 16" "seal_iv rnd \<noteq> []"
  "length (seal_tag G rnd v) = 16"
  by (simp_all add: seal_key_def seal_iv_def seal_tag_def length_gcm_tag)

lemma encryptPromise_eq:
  "encryptPromise G rnd now c k f =
     Inr (toBase64 (utf8_encode (JSON_stringify
       (envelope_package (seal_key rnd) (seal_iv rnd)
          (seal_tag G rnd (sealed_record c k f now))
          (seal_ciphertext G rnd (sealed_record c k f now))))))"
proof -
  have "gcm_encrypt G (seal_key rnd) (seal_iv rnd) seal_aad
          (utf8_encode (JSON_stringify (sealed_record c k f now)))
        = Inr (seal_ciphertext G rnd (sealed_record c k f now),
               seal_tag G rnd (sealed_record c k f now))"
    unfolding seal_ciphertext_def seal_tag_def
    by (rule gcm_round_trip(1)) (simp_all add: seal_lengths)
  then show ?thesis
    unfolding encryptPromise_def
    by (simp add: randomBytes_def Let_def seal_key_def [symmetric] seal_iv_def [symmetric]
        seal_aad_def [symmetric] sealed_record_def [symmetric] envelope_package_def [symmetric])
qed

lemma decode_envelope:
  "JSON_parse (utf8_decode (fromBase64 (toBase64 (utf8_encode (JSON_stringify
      (envelope_package key iv tag ct))))))
   = Some (envelope_package key iv tag ct)"
  unfolding envelope_package_def
  by (simp only: fromBase64_toBase64 utf8_round_trip [OF well_formed_package]
      JSON_parse_package)

lemma decode_sealed_record:
  "JSON_parse (utf8_decode (utf8_encode (JSON_stringify (sealed_record c k f now))))
   = Some (sealed_record c k f now)"
  unfolding sealed_record_def
  by (simp only: utf8_round_trip [OF well_formed_combined] JSON_parse_combined)

lemma envelope_props:
  "get_prop (envelope_package key iv tag ct) (js ''key'') = Inr (Some (JString (toHex key)))"
  "get_prop (envelope_package key iv tag ct) (js ''iv'') = Inr (Some (JString (toHex iv)))"
  "get_prop (envelope_package key iv tag ct) (js ''authTag'') = Inr (Some (JString (toHex tag)))"
  "get_prop (envelope_package key iv tag ct) (js ''encrypted'') = Inr (Some (JString (toHex ct)))"
  by (simp_all add: envelope_package_def js_def)

lemma decryptPromise_body_envelope:
  assumes "gcm_decrypt G key iv seal_aad tag ct = Inr (utf8_encode (JSON_stringify v))"
    and "JSON_parse (utf8_decode (utf8_encode (JSON_stringify v))) = Some v"
  shows "decryptPromise_body G (toBase64 (utf8_encode (JSON_stringify
           (envelope_package key iv tag ct)))) = Inr v"
  unfolding decryptPromise_body_def decode_envelope
  using assms
  by (simp add: envelope_props hex_argument_def fromHex_toHex seal_aad_def)

lemma decryptPromise_encryptPromise:
  "\<exists>envelope. encryptPromise G rnd now c k f = Inr envelope \<and>
     decryptPromise G envelope = Inr (sealed_record c k f now)"
proof -
  have d: "gcm_decrypt G (seal_key rnd) (seal_iv rnd) seal_aad
          (seal_tag G rnd (sealed_record c k f now))
          (seal_ciphertext G rnd (sealed_record c k f now))
        = Inr (utf8_encode (JSON_stringify (sealed_record c k f now)))"
    unfolding seal_ciphertext_def seal_tag_def
    by (rule gcm_round_trip(2)) (simp_all add: seal_lengths)
  show ?thesis
    unfolding encryptPromise_eq decryptPromise_def
    by (simp add: decryptPromise_body_envelope [OF d decode_sealed_record])
qed

subsection \<open>Hex texts\<close>

lemma hexdigit_lower:
  "n < 16 \<Longrightarrow> (48 \<le> unat (hexdigit n) \<and> unat (hexdigit n) \<le> 57) \<or>
     (97 \<le> unat (hexdigit n) \<and> unat (hexdigit n) \<le> 102)"
  by (simp add: unat_hexdigit)

lemma is_lower_hex_toHex: "is_lower_hex (toHex bs)"
proof (induction bs)
  case Nil
  show ?case by (simp add: is_lower_hex_def toHex_def)
next
  case (Cons b bs)
  have "unat b div 16 < 16" "unat b mod 16 < 16"
    using unat_byte_less [of b] by (simp_all add: small_div)
  from hexdigit_lower [OF this(1)] hexdigit_lower [OF this(2)] Cons show ?case
    by (simp add: is_lower_hex_def toHex_def)
qed

subsection \<open>What the outputs depend on\<close>

lemma generateCertificate_clock:
  assumes "generateCertificate t1 p k f = generateCertificate t2 p k f"
  shows "t1 = t2"
proof -
  let ?d = "\<lambda>t. certificateData t p k f"
  let ?s = "\<lambda>t. toHex (authority_hmac (?d t))"
  have "JSON_parse (utf8_decode (fromBase64 (certificate_text (?d t1) (?s t1)))) =
        JSON_parse (utf8_decode (fromBase64 (certificate_text (?d t2) (?s t2))))"
    using assms by (simp only: generateCertificate_eq)
  then have "?d t1 = ?d t2"
    by (simp only: decode_certificate_text) simp
  then show ?thesis
    by (simp add: certificateData_def)
qed

lemma ctr_xor_inj: "ctr_xor ks a = ctr_xor ks b \<Longrightarrow> a = b"
  by (metis ctr_xor_involution)

lemma encryptPromise_depends:
  assumes "encryptPromise G r1 t1 c k f = encryptPromise G r2 t2 c k f"
  shows "seal_key r1 = seal_key r2 \<and> seal_iv r1 = seal_iv r2 \<and> t1 = t2"
proof -
  let ?e = "\<lambda>r t. envelope_package (seal_key r) (seal_iv r)
          (seal_tag G r (sealed_record c k f t)) (seal_ciphertext G r (sealed_record c k f t))"
  have "toBase64 (utf8_encode (JSON_stringify (?e r1 t1))) =
        toBase64 (utf8_encode (JSON_stringify (?e r2 t2)))"
    using assms by (simp only: encryptPromise_eq sum.inject)
  then have "JSON_parse (utf8_decode (fromBase64 (toBase64 (utf8_encode (JSON_stringify (?e r1 t1)))))) =
        JSON_parse (utf8_decode (fromBase64 (toBase64 (utf8_encode (JSON_stringify (?e r2 t2))))))"
    by (rule arg_cong)
  then have e: "?e r1 t1 = ?e r2 t2"
    by (simp only: decode_envelope option.inject)
  then have "toHex (seal_key r1) = toHex (seal_key r2)" "toHex (seal_iv r1) = toHex (seal_iv r2)"
    "toHex (seal_ciphertext G r1 (sealed_record c k f t1)) =
     toHex (seal_ciphertext G r2 (sealed_record c k f t2))"
    by (simp_all add: envelope_package_def)
  then have ki: "seal_key r1 = seal_key r2" "seal_iv r1 = seal_iv r2"
    and ct: "seal_ciphertext G r1 (sealed_record c k f t1) =
             seal_ciphertext G r2 (sealed_record c k f t2)"
    by (auto dest: toHex_inj)
  from ct have "utf8_encode (JSON_stringify (sealed_record c k f t1)) =
        utf8_encode (JSON_stringify (sealed_record c k f t2))"
    unfolding seal_ciphertext_def ki by (rule ctr_xor_inj)
  then have "JSON_parse (utf8_decode (utf8_encode (JSON_stringify (sealed_record c k f t1)))) =
        JSON_parse (utf8_decode (utf8_encode (JSON_stringify (sealed_record c k f t2))))"
    by (rule arg_cong)
  then have "sealed_record c k f t1 = sealed_record c k f t2"
    by (simp only: decode_sealed_record option.inject)
  then have "t1 = t2"
    by (simp add: sealed_record_def)
  with ki show ?thesis by simp
qed

lemma encryptPromise_cong:
  assumes "seal_key r1 = seal_key r2" and "seal_iv r1 = seal_iv r2"
  shows "encryptPromise G r1 t c k f = encryptPromise G r2 t c k f"
  by (simp add: encryptPromise_eq seal_ciphertext_def seal_tag_def assms)

lemma random48: "fst (randomBytes 48 r) = seal_key r @ seal_iv r"
proof -
  have "[0..<48] = [0..<32] @ map (\<lambda>i. 32 + i) [0..<16]"
    using upt_add_eq_append [of 0 32 16] map_add_upt [of 32 16] by (simp add: add.commute)
  then show ?thesis
    by (simp add: randomBytes_def seal_key_def seal_iv_def comp_def)
qed

lemma random48_eq_iff:
  "fst (randomBytes 48 r1) = fst (randomBytes 48 r2) \<longleftrightarrow>
     seal_key r1 = seal_key r2 \<and> seal_iv r1 = seal_iv r2"
  by (simp add: random48 seal_lengths)

subsection \<open>One envelope, computed\<close>

lemma ctr_xor_zero: "ctr_xor (\<lambda>i. 0) m = m"
  by (rule nth_equalityI) (simp_all add: length_ctr_xor nth_ctr_xor)

lemma map_nth_take: "n \<le> length xs \<Longrightarrow> map (\<lambda>i. xs ! i) [0..<n] = take n xs"
  by (rule nth_equalityI) simp_all

lemma seal_key_zero: "seal_key rng_zero = replicate 32 0" "seal_iv rng_zero = replicate 16 0"
  by (simp_all add: seal_key_def seal_iv_def rng_zero_def map_replicate_const)

lemma stub_keystream_zero: "keystream stub_gcm (replicate 32 0) iv = (\<lambda>i. 0)"
  by (rule ext) (simp add: stub_gcm_def)

lemma stub_tag_zero:
  assumes "16 \<le> length aad"
  shows "gcm_tag stub_gcm (replicate 32 0) iv aad ct = take 16 aad"
proof -
  have "map (\<lambda>i. (aad ! i) XOR (replicate 32 (0::byte) ! i)) [0..<16] = map (\<lambda>i. aad ! i) [0..<16]"
    by (rule map_cong) simp_all
  then show ?thesis
    using assms by (simp add: gcm_tag_def stub_gcm_def map_nth_take)
qed

lemma seal_aad_text:
  "seal_aad = map of_nat [112, 114, 111, 109, 105, 115, 101, 115, 104, 97, 114, 101, 45, 97, 117, 116, 104]"
  by (simp add: seal_aad_def encoding_eval)

lemma sealed_record_hi: "sealed_record (js ''hi'') (js ''pk'') (js ''fp'') 1 = record_hi"
  by (simp add: sealed_record_def record_hi_def)

lemma seal_tag_zero: "seal_tag stub_gcm rng_zero v = take 16 seal_aad"
  unfolding seal_tag_def seal_key_zero by (simp add: stub_tag_zero seal_aad_text)

lemma seal_ciphertext_zero:
  "seal_ciphertext stub_gcm rng_zero v = utf8_encode (JSON_stringify v)"
  unfolding seal_ciphertext_def seal_key_zero stub_keystream_zero ctr_xor_zero ..

lemma package_hi_eq:
  "envelope_package (seal_key rng_zero) (seal_iv rng_zero)
     (seal_tag stub_gcm rng_zero record_hi) (seal_ciphertext stub_gcm rng_zero record_hi) = package_hi"
  unfolding seal_tag_zero seal_ciphertext_zero seal_key_zero
  by (simp add: seal_aad_text envelope_package_def package_hi_def record_hi_def
      encoding_eval json_eval replicate_numeral)

lemma envelope_hi_eq:
  "toBase64 (utf8_encode (JSON_stringify package_hi)) = envelope_hi"
  by (simp add: package_hi_def envelope_hi_def encoding_eval json_eval)

lemma encryptPromise_hi:
  "encryptPromise stub_gcm rng_zero 1 (js ''hi'') (js ''pk'') (js ''fp'') = Inr envelope_hi"
  by (simp only: encryptPromise_eq sealed_record_hi package_hi_eq envelope_hi_eq)

lemma decode_envelope_hi:
  "JSON_parse (utf8_decode (fromBase64 envelope_hi)) = Some package_hi"
  using decode_envelope [of "seal_key rng_zero" "seal_iv rng_zero"
     "seal_tag stub_gcm rng_zero record_hi" "seal_ciphertext stub_gcm rng_zero record_hi"]
  by (simp only: package_hi_eq envelope_hi_eq)

lemma decryptPromise_hi: "decryptPromise stub_gcm envelope_hi = Inr record_hi"
  using decryptPromise_encryptPromise [of stub_gcm rng_zero 1 "js ''hi''" "js ''pk''" "js ''fp''"]
  unfolding encryptPromise_hi sealed_record_hi by simp

subsection \<open>Two certificate signatures, computed\<close>












subsection \<open>The text that is hashed for a challenge\<close>

lemma well_formed_string_members:
  "list_all (\<lambda>(k, v). \<exists>t. v = JString t) ms \<Longrightarrow> well_formed (stringify_members ms)"
proof (induction ms rule: induct_list012)
  case 1
  show ?case by simp
next
  case (2 x)
  then show ?case
    by (cases x) (auto simp add: well_formed_intros is_high_def is_low_def)
next
  case (3 x y zs)
  then have "well_formed (stringify_members (y # zs))"
    by simp
  with 3(3) show ?case
    by (cases x) (auto simp add: well_formed_intros is_high_def is_low_def)
qed

lemma string_members_object_of:
  "list_all (\<lambda>(k, v). \<exists>t. v = JString t)
     (List.map_filter (\<lambda>(k, v). map_option (Pair k) v)
        (map (\<lambda>(k, t). (k, map_option JString t)) ps))"
  by (induction ps) (auto simp add: List.map_filter_simps split: option.splits)

lemma well_formed_promiseData: "well_formed (JSON_stringify (promiseData_json s))"
proof -
  let ?ms = "List.map_filter (\<lambda>(k, v). map_option (Pair k) v)
        (map (\<lambda>(k, t). (k, map_option JString t))
          [(js ''id'', pd_id s), (js ''title'', pd_title s), (js ''content'', pd_content s),
           (js ''deliveryDate'', pd_deliveryDate s), (js ''creatorId'', pd_creatorId s)])"
  have eq: "promiseData_json s = JObject ?ms"
    by (simp add: promiseData_json_def object_of_def)
  have wf: "well_formed (stringify_members ?ms)"
    by (rule well_formed_string_members [OF string_members_object_of])
  show ?thesis
    unfolding eq JSON_stringify.simps
    by (intro well_formed_append wf) (simp_all add: is_high_def is_low_def)
qed

lemma utf8_encode_inj:
  "well_formed a \<Longrightarrow> well_formed b \<Longrightarrow> utf8_encode a = utf8_encode b \<Longrightarrow> a = b"
  by (metis utf8_round_trip)

lemma gcm_decrypt_seal:
  "gcm_decrypt G (seal_key rnd) (seal_iv rnd) seal_aad (seal_tag G rnd v)
     (seal_ciphertext G rnd v) = Inr (utf8_encode (JSON_stringify v))"
  unfolding seal_ciphertext_def seal_tag_def
  by (rule gcm_round_trip(2)) (simp_all add: seal_lengths)

lemma seal_key_one: "seal_key rng_one = replicate 32 1"
  by (simp add: seal_key_def rng_one_def map_replicate_const)

section \<open>The claims\<close>

text \<open>
  C10. The result of \<open>validateCertificate\<close> does not depend on the \<open>publicKey\<close> argument:
  for every certificate text and every two keys the results agree. The function never
  reads that argument.
\<close>

theorem validateCertificate_ignores_publicKey:
  "validateCertificate certificate k1 = validateCertificate certificate k2"
  by (simp add: validateCertificate_def validateCertificate_body_def)

text \<open>
  C6. Whenever the body of \<open>verifySignedPromise\<close> completes without an exception, the
  returned \<open>isValid\<close> is the conjunction of the four sub-checks \<open>isChallengeValid\<close>,
  \<open>isClientDataValid\<close>, \<open>isSignatureValid\<close> and \<open>isDataIntact\<close>, and \<open>isClientDataValid\<close>
  holds exactly when the decoded \<open>clientDataJSON\<close> has type \<open>webauthn.get\<close>, a challenge
  equal to the challenge of the file, and an origin that includes the \<open>rpId\<close> of the file.
\<close>

theorem isValid_is_conjunction:
  assumes "verifySignedPromise_body K sp = Inr (r, cdv)"
  shows "verifySignedPromise K sp = r \<and>
         isValid r = (isChallengeValid r \<and> cdv \<and> isSignatureValid r \<and> isDataIntact r) \<and>
         (\<exists>sg j cd. signature sp = Some sg \<and> clientDataJSON sg = Some j \<and>
            JSON_parse (utf8_decode (fromBase64 j)) = Some cd \<and>
            (cdv \<longleftrightarrow>
               get_prop cd (js ''type'') = Inr (Some (JString (js ''webauthn.get''))) \<and>
               get_prop cd (js ''challenge'') = Inr (map_option JString (challenge sp)) \<and>
               (\<exists>origin. get_prop cd (js ''origin'') = Inr origin \<and>
                         origin_includes origin (rpId sp) = Inr True)))"
proof -
  from body_Inr_D [OF assms] obtain cr sg j cd where
    f: "signature sp = Some sg" "clientDataJSON sg = Some j"
       "JSON_parse (utf8_decode (fromBase64 j)) = Some cd"
       "isClientDataValid cd sp = Inr cdv"
       "isValid r = (isChallengeValid r \<and> cdv \<and> isSignatureValid r \<and> isDataIntact r)"
    by blast
  have "cdv \<longleftrightarrow> isClientDataValid cd sp = Inr True"
    using f(4) by auto
  then have "cdv \<longleftrightarrow>
       get_prop cd (js ''type'') = Inr (Some (JString (js ''webauthn.get''))) \<and>
       get_prop cd (js ''challenge'') = Inr (map_option JString (challenge sp)) \<and>
       (\<exists>origin. get_prop cd (js ''origin'') = Inr origin \<and>
                 origin_includes origin (rpId sp) = Inr True)"
    by (simp only: isClientDataValid_True_iff)
  moreover have "verifySignedPromise K sp = r"
    using assms by (simp add: verifySignedPromise_def)
  ultimately show ?thesis
    using f by blast
qed

theorem isValid_is_conjunction_witness:
  "verifySignedPromise (stub_keys True) artifact_friday =
     \<lparr>isValid = True, isSignatureValid = True, isChallengeValid = True,
      isDataIntact = True, result_creator = Some (js ''alice''), errorDetails = None\<rparr> \<and>
   (\<exists>sg j cd. signature artifact_friday = Some sg \<and> clientDataJSON sg = Some j \<and>
      JSON_parse (utf8_decode (fromBase64 j)) = Some cd \<and>
      get_prop cd (js ''type'') = Inr (Some (JString (js ''webauthn.get''))) \<and>
      get_prop cd (js ''challenge'') = Inr (map_option JString (challenge artifact_friday)) \<and>
      (\<exists>origin. get_prop cd (js ''origin'') = Inr origin \<and>
                origin_includes origin (rpId artifact_friday) = Inr True))"
  using isValid_is_conjunction [OF body_artifact_friday] by simp

text \<open>
  C1, as amended. \<open>verifySignedPromise\<close> recomputes the expected challenge with
  \<open>generateSigningChallenge\<close> from the file's own \<open>id\<close>, \<open>title\<close>, \<open>content\<close>,
  \<open>deliveryDate\<close> and \<open>creator.id\<close>. The returned \<open>isChallengeValid\<close> is true exactly when
  the body completes without an exception and the stored challenge equals that
  recomputation. For the file built over the snapshot \<open>p1\<close>, \<open>Deliver report\<close>,
  \<open>I will deliver by Friday\<close>, \<open>2025-01-10\<close>, \<open>u1\<close>, changing the content to
  \<open>I will deliver by Monday\<close> after the build makes \<open>isChallengeValid\<close> false, whatever
  the assertion, the keys, the clock and the random bytes are.
\<close>

theorem challenge_binds_snapshot:
  "(isChallengeValid (verifySignedPromise K sp) \<longleftrightarrow>
      (\<exists>r cdv. verifySignedPromise_body K sp = Inr (r, cdv)) \<and>
      (\<exists>cr. creator sp = Some cr \<and>
            challenge sp = Some (generateSigningChallenge
              \<lparr>pd_id = promise_id sp, pd_title = title sp, pd_content = content sp,
               pd_deliveryDate = deliveryDate sp, pd_creatorId = creator_id cr\<rparr>))) \<and>
   (\<exists>a. createSignedPromiseFile G rnd now env record_friday sd pk
            (generateSigningChallenge snapshot_friday) = Inr a \<and>
        \<not> isChallengeValid (verifySignedPromise K'
             (a\<lparr>content := Some (js ''I will deliver by Monday'')\<rparr>)))"
proof
  show "isChallengeValid (verifySignedPromise K sp) \<longleftrightarrow>
      (\<exists>r cdv. verifySignedPromise_body K sp = Inr (r, cdv)) \<and>
      (\<exists>cr. creator sp = Some cr \<and>
            challenge sp = Some (generateSigningChallenge
              \<lparr>pd_id = promise_id sp, pd_title = title sp, pd_content = content sp,
               pd_deliveryDate = deliveryDate sp, pd_creatorId = creator_id cr\<rparr>))"
    using isChallengeValid_iff [of K sp] by (simp add: snapshot_of_def)
next
  obtain e where a: "createSignedPromiseFile G rnd now env record_friday sd pk
            (generateSigningChallenge snapshot_friday) =
     Inr \<lparr>promise_id = Some (js ''p1''),
          title = Some (js ''Deliver report''),
          content = Some (js ''I will deliver by Friday''),
          deliveryDate = Some (js ''2025-01-10''),
          createdAt = Some (js ''2025-01-01T09:00:00.000Z''),
          creator = Some creator_alice,
          encryptedContent = Some e,
          signature = Some sd,
          publicKey = Some pk,
          challenge = Some (generateSigningChallenge snapshot_friday),
          rpId = Some (case env of None \<Rightarrow> js ''localhost''
                       | Some d \<Rightarrow> if d = [] then js ''localhost'' else d)\<rparr>"
    (is "_ = Inr ?a")
    using createSignedPromiseFile_friday by blast
  have sn: "snapshot_of (?a\<lparr>content := Some (js ''I will deliver by Monday'')\<rparr>) creator_alice
              = snapshot_monday"
    by (rule tampered_snapshot) simp_all
  have "\<not> isChallengeValid (verifySignedPromise K'
             (?a\<lparr>content := Some (js ''I will deliver by Monday'')\<rparr>))"
    unfolding isChallengeValid_iff
    using challenges_differ sn by auto
  with a show "\<exists>a. createSignedPromiseFile G rnd now env record_friday sd pk
            (generateSigningChallenge snapshot_friday) = Inr a \<and>
        \<not> isChallengeValid (verifySignedPromise K'
             (a\<lparr>content := Some (js ''I will deliver by Monday'')\<rparr>))"
    by blast
qed

text \<open>
  C1 as stated fails: the stored challenge of this file equals the recomputation, but its
  \<open>clientDataJSON\<close> is not JSON, the body throws, and \<open>isChallengeValid\<close> is false.
\<close>

theorem stored_challenge_equal_but_not_valid:
  "creator artifact_bad_client_data = Some creator_alice \<and>
   challenge artifact_bad_client_data =
     Some (generateSigningChallenge
       \<lparr>pd_id = promise_id artifact_bad_client_data,
        pd_title = title artifact_bad_client_data,
        pd_content = content artifact_bad_client_data,
        pd_deliveryDate = deliveryDate artifact_bad_client_data,
        pd_creatorId = creator_id creator_alice\<rparr>) \<and>
   \<not> isChallengeValid (verifySignedPromise (stub_keys True) artifact_bad_client_data)"
proof -
  have "\<lparr>pd_id = promise_id artifact_bad_client_data,
        pd_title = title artifact_bad_client_data,
        pd_content = content artifact_bad_client_data,
        pd_deliveryDate = deliveryDate artifact_bad_client_data,
        pd_creatorId = creator_id creator_alice\<rparr> = snapshot_friday"
    by (simp add: artifact_bad_client_data_def artifact_friday_def snapshot_friday_def
        creator_alice_def)
  then show ?thesis
    by (simp add: friday_challenge body_Inl_result [OF body_bad_client_data])
       (simp add: artifact_bad_client_data_def artifact_friday_def)
qed




text \<open>
  C7. The challenge check and the signature check are independent: when a file passes the
  challenge check, replacing its challenge by any other value makes \<open>isChallengeValid\<close>
  false, while \<open>verifyWebAuthnSignature\<close> gives the same result for every value of
  its \<open>expectedChallenge\<close> argument.
\<close>

theorem challenge_check_independent_of_signature_check:
  assumes "isChallengeValid (verifySignedPromise K sp)" and "challenge sp \<noteq> Some c'"
  shows "\<not> isChallengeValid (verifySignedPromise K (sp\<lparr>challenge := Some c'\<rparr>)) \<and>
         verifyWebAuthnSignature K sg pem c1 = verifyWebAuthnSignature K sg pem c2"
proof
  from assms(1) obtain cr where
    c: "creator sp = Some cr" "challenge sp = Some (generateSigningChallenge (snapshot_of sp cr))"
    unfolding isChallengeValid_iff by blast
  have "snapshot_of (sp\<lparr>challenge := Some c'\<rparr>) cr = snapshot_of sp cr"
    by (simp add: snapshot_of_def)
  with c assms(2) show "\<not> isChallengeValid (verifySignedPromise K (sp\<lparr>challenge := Some c'\<rparr>))"
    unfolding isChallengeValid_iff by auto
next
  show "verifyWebAuthnSignature K sg pem c1 = verifyWebAuthnSignature K sg pem c2"
    by (rule verifyWebAuthnSignature_ignores_challenge)
qed

theorem challenge_check_independent_of_signature_check_witness:
  "isChallengeValid (verifySignedPromise (stub_keys True) artifact_friday) \<and>
   challenge artifact_friday \<noteq> Some (js ''another-challenge'') \<and>
   \<not> isChallengeValid (verifySignedPromise (stub_keys True)
        (artifact_friday\<lparr>challenge := Some (js ''another-challenge'')\<rparr>)) \<and>
   verifyWebAuthnSignature (stub_keys True) assertion_friday (publicKey artifact_friday)
       (Some (js ''another-challenge''))
     = verifyWebAuthnSignature (stub_keys True) assertion_friday (publicKey artifact_friday)
         (challenge artifact_friday)"
proof -
  have v: "isChallengeValid (verifySignedPromise (stub_keys True) artifact_friday)"
    by (simp add: body_Inr_result [OF body_artifact_friday])
  have d: "challenge artifact_friday \<noteq> Some (js ''another-challenge'')"
    by (simp add: artifact_friday_def js_def)
  from challenge_check_independent_of_signature_check [OF v d] v d show ?thesis
    by blast
qed



text \<open>
  C3. For every content, private key and fingerprint (and every clock reading, random
  bytes and block cipher), sealing returns an envelope without an error, decrypting that
  envelope succeeds, and the \<open>content\<close> of the decrypted record is the original content.
\<close>

theorem sealed_content_round_trip:
  "\<exists>envelope decrypted.
     encryptPromise G rnd now contentText privateKeyText fingerprintText = Inr envelope \<and>
     decryptPromise G envelope = Inr decrypted \<and>
     get_prop decrypted (js ''content'') = Inr (Some (JString contentText)) \<and>
     decrypted = JObject
       [(js ''content'', JString contentText),
        (js ''privateKey'', JString privateKeyText),
        (js ''fingerprint'', JString fingerprintText),
        (js ''timestamp'', JNum (int now))]"
proof -
  obtain envelope where
    e: "encryptPromise G rnd now contentText privateKeyText fingerprintText = Inr envelope"
       "decryptPromise G envelope = Inr (sealed_record contentText privateKeyText fingerprintText now)"
    using decryptPromise_encryptPromise by blast
  have "get_prop (sealed_record contentText privateKeyText fingerprintText now) (js ''content'')
        = Inr (Some (JString contentText))"
    by (simp add: sealed_record_def)
  with e show ?thesis
    by (auto simp: sealed_record_def)
qed

text \<open>
  C5. \<open>generateSigningChallenge\<close> depends on the snapshot alone (no clock, no random
  bytes): it is the base64url text of the SHA-256 digest of the UTF-8 bytes of
  \<open>JSON.stringify\<close> of the snapshot \<open>{id, title, content, deliveryDate, creatorId}\<close>.
  Snapshots that agree on the five fields have equal challenges. Two challenges are equal
  exactly when the two digests are equal. So when the JSON texts of two snapshots differ,
  the hashed byte strings differ too, and either the challenges differ or the two byte
  strings are a SHA-256 collision.
\<close>

theorem challenge_is_hash_of_snapshot:
  "generateSigningChallenge s =
     toBase64url (sha256 (utf8_encode (JSON_stringify (promiseData_json s)))) \<and>
   (pd_id s = pd_id s' \<and> pd_title s = pd_title s' \<and> pd_content s = pd_content s' \<and>
    pd_deliveryDate s = pd_deliveryDate s' \<and> pd_creatorId s = pd_creatorId s'
      \<longrightarrow> generateSigningChallenge s = generateSigningChallenge s') \<and>
   (generateSigningChallenge s = generateSigningChallenge s' \<longleftrightarrow>
      sha256 (utf8_encode (JSON_stringify (promiseData_json s))) =
      sha256 (utf8_encode (JSON_stringify (promiseData_json s')))) \<and>
   (JSON_stringify (promiseData_json s) \<noteq> JSON_stringify (promiseData_json s') \<longrightarrow>
      utf8_encode (JSON_stringify (promiseData_json s)) \<noteq>
      utf8_encode (JSON_stringify (promiseData_json s')) \<and>
      (generateSigningChallenge s \<noteq> generateSigningChallenge s' \<or>
       sha256 (utf8_encode (JSON_stringify (promiseData_json s))) =
       sha256 (utf8_encode (JSON_stringify (promiseData_json s')))))"
proof -
  have a: "generateSigningChallenge s =
     toBase64url (sha256 (utf8_encode (JSON_stringify (promiseData_json s))))" for s
    by (simp add: generateSigningChallenge_def)
  have b: "generateSigningChallenge s = generateSigningChallenge s' \<longleftrightarrow>
      sha256 (utf8_encode (JSON_stringify (promiseData_json s))) =
      sha256 (utf8_encode (JSON_stringify (promiseData_json s')))"
    unfolding a by (auto dest: toBase64url_inj)
  have c: "utf8_encode (JSON_stringify (promiseData_json s)) \<noteq>
      utf8_encode (JSON_stringify (promiseData_json s'))"
    if "JSON_stringify (promiseData_json s) \<noteq> JSON_stringify (promiseData_json s')"
    using that utf8_encode_inj [OF well_formed_promiseData well_formed_promiseData] by blast
  have d: "generateSigningChallenge s = generateSigningChallenge s'"
    if "pd_id s = pd_id s' \<and> pd_title s = pd_title s' \<and> pd_content s = pd_content s' \<and>
        pd_deliveryDate s = pd_deliveryDate s' \<and> pd_creatorId s = pd_creatorId s'"
    using that by (simp add: generateSigningChallenge_def promiseData_json_def)
  from a b c d show ?thesis by blast
qed

theorem challenge_is_hash_of_snapshot_witness:
  "generateSigningChallenge snapshot_friday = generateSigningChallenge snapshot_friday \<and>
   JSON_stringify (promiseData_json snapshot_friday) \<noteq>
     JSON_stringify (promiseData_json snapshot_monday) \<and>
   sha256 (utf8_encode (JSON_stringify (promiseData_json snapshot_friday))) \<noteq>
     sha256 (utf8_encode (JSON_stringify (promiseData_json snapshot_monday))) \<and>
   generateSigningChallenge snapshot_friday \<noteq> generateSigningChallenge snapshot_monday"
proof -
  have h: "sha256 (utf8_encode (JSON_stringify (promiseData_json snapshot_friday))) \<noteq>
     sha256 (utf8_encode (JSON_stringify (promiseData_json snapshot_monday)))"
    unfolding friday_hash monday_hash by simp
  then have j: "JSON_stringify (promiseData_json snapshot_friday) \<noteq>
     JSON_stringify (promiseData_json snapshot_monday)"
    by auto
  from challenge_is_hash_of_snapshot [of snapshot_friday snapshot_monday]
    challenge_is_hash_of_snapshot [of snapshot_friday snapshot_friday] h j
  show ?thesis by simp
qed

text \<open>
  C8, as amended. Every envelope that \<open>encryptPromise\<close> returns is the base64 text of the
  JSON object with exactly the members \<open>key\<close>, \<open>iv\<close>, \<open>authTag\<close>, \<open>encrypted\<close>, in this
  order, whose values are lower-case hex texts of a 32-byte key, a 16-byte IV, a 16-byte
  tag and the ciphertext. The tag is computed with the associated data
  \<open>promiseshare-auth\<close>, and under this associated data the ciphertext decrypts to the
  JSON text of the object \<open>{content, privateKey, fingerprint, timestamp}\<close> of three
  strings and the clock reading in milliseconds.
\<close>

theorem envelope_wire_format:
  "\<exists>key iv authTag encrypted.
     encryptPromise G rnd now contentText privateKeyText fingerprintText =
       Inr (toBase64 (utf8_encode (JSON_stringify (JObject
         [(js ''key'', JString (toHex key)),
          (js ''iv'', JString (toHex iv)),
          (js ''authTag'', JString (toHex authTag)),
          (js ''encrypted'', JString (toHex encrypted))])))) \<and>
     length key = 32 \<and> length iv = 16 \<and> length authTag = 16 \<and>
     is_lower_hex (toHex key) \<and> is_lower_hex (toHex iv) \<and>
     is_lower_hex (toHex authTag) \<and> is_lower_hex (toHex encrypted) \<and>
     authTag = gcm_tag G key iv (utf8_encode (js ''promiseshare-auth'')) encrypted \<and>
     gcm_decrypt G key iv (utf8_encode (js ''promiseshare-auth'')) authTag encrypted =
       Inr (utf8_encode (JSON_stringify (JObject
         [(js ''content'', JString contentText),
          (js ''privateKey'', JString privateKeyText),
          (js ''fingerprint'', JString fingerprintText),
          (js ''timestamp'', JNum (int now))])))"
proof -
  let ?v = "sealed_record contentText privateKeyText fingerprintText now"
  have "encryptPromise G rnd now contentText privateKeyText fingerprintText =
       Inr (toBase64 (utf8_encode (JSON_stringify (JObject
         [(js ''key'', JString (toHex (seal_key rnd))),
          (js ''iv'', JString (toHex (seal_iv rnd))),
          (js ''authTag'', JString (toHex (seal_tag G rnd ?v))),
          (js ''encrypted'', JString (toHex (seal_ciphertext G rnd ?v)))]))))"
    by (simp only: encryptPromise_eq envelope_package_def)
  moreover have "seal_tag G rnd ?v =
      gcm_tag G (seal_key rnd) (seal_iv rnd) (utf8_encode (js ''promiseshare-auth''))
        (seal_ciphertext G rnd ?v)"
    by (simp only: seal_tag_def seal_aad_def)
  moreover have "gcm_decrypt G (seal_key rnd) (seal_iv rnd)
      (utf8_encode (js ''promiseshare-auth'')) (seal_tag G rnd ?v) (seal_ciphertext G rnd ?v) =
       Inr (utf8_encode (JSON_stringify (JObject
         [(js ''content'', JString contentText),
          (js ''privateKey'', JString privateKeyText),
          (js ''fingerprint'', JString fingerprintText),
          (js ''timestamp'', JNum (int now))])))"
    using gcm_decrypt_seal [of G rnd ?v] by (simp only: seal_aad_def sealed_record_def)
  ultimately show ?thesis
    using seal_lengths(1,2,4) is_lower_hex_toHex by blast
qed

text \<open>
  C8 as stated fails: the envelope of \<open>encryptPromise('hi', 'pk', 'fp')\<close> has no member
  \<open>ciphertext\<close> (the member is \<open>encrypted\<close>), the sealed record has no member
  \<open>privateKeyMaterial\<close> (the member is \<open>privateKey\<close>), and the tag, which with the
  stand-in cipher and an all-zero key shows the first 16 bytes of the associated data,
  is that of \<open>promiseshare-auth\<close>, not that of \<open>promise-auth-context\<close>.
\<close>

theorem envelope_member_is_encrypted_not_ciphertext:
  "encryptPromise stub_gcm rng_zero 1 (js ''hi'') (js ''pk'') (js ''fp'') = Inr envelope_hi \<and>
   JSON_parse (utf8_decode (fromBase64 envelope_hi)) = Some package_hi \<and>
   get_prop package_hi (js ''ciphertext'') = Inr None \<and>
   get_prop package_hi (js ''encrypted'') =
     Inr (Some (JString (toHex (utf8_encode (JSON_stringify record_hi))))) \<and>
   decryptPromise stub_gcm envelope_hi = Inr record_hi \<and>
   get_prop record_hi (js ''privateKeyMaterial'') = Inr None \<and>
   get_prop record_hi (js ''privateKey'') = Inr (Some (JString (js ''pk''))) \<and>
   get_prop package_hi (js ''authTag'') =
     Inr (Some (JString (toHex (take 16 (utf8_encode (js ''promiseshare-auth'')))))) \<and>
   get_prop package_hi (js ''authTag'') \<noteq>
     Inr (Some (JString (toHex (take 16 (utf8_encode (js ''promise-auth-context''))))))"
proof -
  have "get_prop package_hi (js ''ciphertext'') = Inr None"
    by (simp add: package_hi_def js_def)
  moreover have "get_prop package_hi (js ''encrypted'') =
     Inr (Some (JString (toHex (utf8_encode (JSON_stringify record_hi)))))"
    by (simp add: package_hi_def record_hi_def encoding_eval json_eval)
  moreover have "get_prop record_hi (js ''privateKeyMaterial'') = Inr None"
    "get_prop record_hi (js ''privateKey'') = Inr (Some (JString (js ''pk'')))"
    by (simp_all add: record_hi_def js_def)
  moreover have "get_prop package_hi (js ''authTag'') =
     Inr (Some (JString (toHex (take 16 (utf8_encode (js ''promiseshare-auth''))))))"
    "get_prop package_hi (js ''authTag'') \<noteq>
     Inr (Some (JString (toHex (take 16 (utf8_encode (js ''promise-auth-context''))))))"
    by (simp_all add: package_hi_def encoding_eval)
  ultimately show ?thesis
    using encryptPromise_hi decode_envelope_hi decryptPromise_hi by simp
qed

text \<open>
  C9, as amended. The results are functions of the arguments together with the clock
  reading and the random bytes drawn. For the same promise id, public key and fingerprint,
  two calls of \<open>generateCertificate\<close> return equal texts exactly when their clock readings
  (\<open>issuedAt\<close>) are equal. For the same content, private key and fingerprint, two calls
  of \<open>encryptPromise\<close> return equal envelopes exactly when the 48 random bytes drawn for
  key and IV are equal and the clock readings (\<open>timestamp\<close>) are equal.
\<close>

theorem outputs_equal_iff_clock_and_random_bytes_equal:
  "(generateCertificate t1 promiseId publicKeyText fingerprintText =
    generateCertificate t2 promiseId publicKeyText fingerprintText \<longleftrightarrow> t1 = t2) \<and>
   (encryptPromise G r1 t1 contentText privateKeyText fingerprintText =
    encryptPromise G r2 t2 contentText privateKeyText fingerprintText \<longleftrightarrow>
      fst (randomBytes 48 r1) = fst (randomBytes 48 r2) \<and> t1 = t2)"
  unfolding random48_eq_iff
  using generateCertificate_clock encryptPromise_depends encryptPromise_cong by blast

text \<open>
  C9 as stated fails: for the same arguments, a call of \<open>generateCertificate\<close> at clock
  reading 1 and one at clock reading 2 return different certificates, and calls of
  \<open>encryptPromise\<close> return different envelopes when the clock readings differ or when the
  random bytes differ.
\<close>

theorem two_calls_return_different_texts:
  "generateCertificate 1 (js ''p1'') (js ''k1'') (js ''f1'') \<noteq>
     generateCertificate 2 (js ''p1'') (js ''k1'') (js ''f1'') \<and>
   encryptPromise stub_gcm rng_zero 1 (js ''hi'') (js ''pk'') (js ''fp'') \<noteq>
     encryptPromise stub_gcm rng_zero 2 (js ''hi'') (js ''pk'') (js ''fp'') \<and>
   encryptPromise stub_gcm rng_zero 1 (js ''hi'') (js ''pk'') (js ''fp'') \<noteq>
     encryptPromise stub_gcm rng_one 1 (js ''hi'') (js ''pk'') (js ''fp'')"
proof -
  have "seal_key rng_zero \<noteq> seal_key rng_one"
    by (simp add: seal_key_zero seal_key_one)
  then show ?thesis
    using generateCertificate_clock [of 1 "js ''p1''" "js ''k1''" "js ''f1''" 2]
      encryptPromise_depends [of stub_gcm rng_zero 1 "js ''hi''" "js ''pk''" "js ''fp''" rng_zero 2]
      encryptPromise_depends [of stub_gcm rng_zero 1 "js ''hi''" "js ''pk''" "js ''fp''" rng_one 1]
    by auto
qed

end
